theory Spec2Isabelle
  imports Main "HOL-Library.Sublist" "HOL-Library.Word"
begin

unbundle bit_operations_syntax

section \<open>JavaScript strings\<close>

text \<open>
  The client is JavaScript. A JavaScript string is modelled as a \<open>string\<close>, one
  \<open>char\<close> per code unit in the range U+0000..U+00FF; the pages of the switch and the
  parameters of the routines are ASCII. \<open>isSpace\<close> is the class \<open>\s\<close> of a regular
  expression and the set that \<open>trim\<close> removes, \<open>isWord\<close> is \<open>\w\<close>, \<open>isDigit\<close>
  is \<open>\d\<close>.
\<close>

definition isSpace :: "char \<Rightarrow> bool" where
  "isSpace c = (c \<in> set [CHR 0x09, CHR 0x0A, CHR 0x0B, CHR 0x0C, CHR 0x0D, CHR '' '', CHR 0xA0])"

definition isDigit :: "char \<Rightarrow> bool" where
  "isDigit c = (c \<in> set ''0123456789'')"

definition isWord :: "char \<Rightarrow> bool" where
  "isWord c = (c \<in> set ''abcdefghijklmnopqrstuvwxyzABCDEFGHIJKLMNOPQRSTUVWXYZ0123456789_'')"

definition trim :: "string \<Rightarrow> string" where
  "trim s = rev (dropWhile isSpace (rev (dropWhile isSpace s)))"

text \<open>
  \<open>txt.match(regex)\<close> without the \<open>g\<close> flag tries the start positions from left
  to right, the end of the text included, and stops at the first one where the
  expression matches. \<open>searchFrom m\<close> does so for a matcher \<open>m\<close> anchored at the
  start of its argument.
\<close>

fun searchFrom :: "(string \<Rightarrow> 'a option) \<Rightarrow> string \<Rightarrow> 'a option" where
  "searchFrom m [] = m []"
| "searchFrom m (c # cs) = (case m (c # cs) of Some r \<Rightarrow> Some r | None \<Rightarrow> searchFrom m cs)"

section \<open>extractVariable\<close>

text \<open>
  \<^verbatim>\<open>
  function extractVariable(txt, variable) {
    const varStart   = variable + '\\s*='
    const content    = '([\\s\\S]*?)'
    const varEnd     = ';'
    const regex      = new RegExp(varStart + content + varEnd)
    const match = txt.match(regex)
    if (!match) { return null }
    const result = match[1].trim()
    return result
  }
  \<close>
  The variable name becomes part of the expression; the model reads it as literal
  text, which is what the expression does for a name of letters, digits and
  underscores (\<open>all isWord variable\<close>). After the name, \<open>\s*\<close> takes every white
  space character (giving one back never helps: the next character has to be \<open>=\<close>),
  and the lazy group ends at the first semicolon.
\<close>

definition untilSemicolon :: "string \<Rightarrow> string option" where
  "untilSemicolon s =
     (if CHR '';'' \<in> set s then Some (takeWhile (\<lambda>c. c \<noteq> CHR '';'') s) else None)"

definition varAt :: "string \<Rightarrow> string \<Rightarrow> string option" where
  "varAt variable s =
     (if prefix variable s
      then (case dropWhile isSpace (drop (length variable) s) of
              [] \<Rightarrow> None
            | c # r \<Rightarrow> if c = CHR ''='' then untilSemicolon r else None)
      else None)"

definition extractVariable :: "string \<Rightarrow> string \<Rightarrow> string option" where
  "extractVariable txt variable =
     (case searchFrom (varAt variable) txt of
        None \<Rightarrow> None
      | Some group1 \<Rightarrow> Some (trim group1))"

section \<open>JavaScript values and numbers\<close>

text \<open>
  The parameters of the routines are JavaScript values. \<open>JNumber\<close> carries an
  integer Number of magnitude below \<open>10^21\<close>, which prints in plain decimal; the
  routines are called with port numbers, flags and VLAN ids.
\<close>

datatype jsval =
  JUndefined | JNull | JBool bool | JNumber int | JString string | JArray "jsval list"

text \<open>The result of \<open>parseInt\<close>: a Number that is an integer, or NaN, or an infinity.\<close>

datatype jsnum = NaN | Num int | PosInf | NegInf

function digitsOf :: "int \<Rightarrow> string" where
  "digitsOf n =
     (if n < 10 then [char_of (48 + n)] else digitsOf (n div 10) @ [char_of (48 + n mod 10)])"
  by pat_completeness auto
termination
  by (relation "measure nat") auto

declare digitsOf.simps [simp del]

definition intToString :: "int \<Rightarrow> string" where
  "intToString i = (if i < 0 then ''-'' @ digitsOf (- i) else digitsOf i)"

definition numToString :: "jsnum \<Rightarrow> string" where
  "numToString x =
     (case x of NaN \<Rightarrow> ''NaN'' | Num i \<Rightarrow> intToString i
      | PosInf \<Rightarrow> ''Infinity'' | NegInf \<Rightarrow> ''-Infinity'')"

fun joinComma :: "string list \<Rightarrow> string" where
  "joinComma [] = []"
| "joinComma [s] = s"
| "joinComma (s # t # ss) = s @ '','' @ joinComma (t # ss)"

text \<open>ToString: an array joins its elements with commas, null and undefined as nothing.\<close>

fun toString :: "jsval \<Rightarrow> string" where
  "toString JUndefined = ''undefined''"
| "toString JNull = ''null''"
| "toString (JBool b) = (if b then ''true'' else ''false'')"
| "toString (JNumber i) = intToString i"
| "toString (JString s) = s"
| "toString (JArray xs) =
     joinComma (map (\<lambda>x. if x = JUndefined \<or> x = JNull then [] else toString x) xs)"

fun truthy :: "jsval \<Rightarrow> bool" where
  "truthy JUndefined = False"
| "truthy JNull = False"
| "truthy (JBool b) = b"
| "truthy (JNumber i) = (i \<noteq> 0)"
| "truthy (JString s) = (s \<noteq> [])"
| "truthy (JArray xs) = True"

text \<open>
  The Number value of a non-negative integer: itself below \<open>2^53\<close>, else rounded to
  53 significant bits, to nearest with ties to even; \<open>None\<close> is Infinity.
\<close>

function bitLength :: "int \<Rightarrow> nat" where
  "bitLength n = (if n \<le> 0 then 0 else Suc (bitLength (n div 2)))"
  by pat_completeness auto
termination
  by (relation "measure nat") auto

declare bitLength.simps [simp del]

definition toDouble :: "int \<Rightarrow> int option" where
  "toDouble n =
     (if n < 2 ^ 53 then Some n
      else let e = bitLength n - 53; q = n div 2 ^ e; r = n mod 2 ^ e; h = 2 ^ (e - 1);
               q' = (if h < r \<or> (r = h \<and> odd q) then q + 1 else q)
           in if 2 ^ 1024 \<le> q' * 2 ^ e then None else Some (q' * 2 ^ e))"

text \<open>
  \<open>parseInt(string, radix)\<close>: leading white space is skipped, then a sign; with no
  radix (\<open>None\<close>) or radix 16 a prefix \<open>0x\<close> or \<open>0X\<close> is dropped and the radix is 16,
  with no radix and no prefix it is 10; the longest prefix of digits of the radix is
  the value, NaN when there is none. The rest of the text is ignored.
\<close>

definition digitVal :: "char \<Rightarrow> int option" where
  "digitVal c =
     (let n = (of_char c :: int)
      in if 48 \<le> n \<and> n \<le> 57 then Some (n - 48)
         else if 97 \<le> n \<and> n \<le> 122 then Some (n - 87)
         else if 65 \<le> n \<and> n \<le> 90 then Some (n - 55)
         else None)"

definition isDigitOf :: "int \<Rightarrow> char \<Rightarrow> bool" where
  "isDigitOf R c = (case digitVal c of None \<Rightarrow> False | Some d \<Rightarrow> d < R)"

fun digitsValue :: "int \<Rightarrow> int \<Rightarrow> string \<Rightarrow> int" where
  "digitsValue R acc [] = acc"
| "digitsValue R acc (c # cs) =
     (case digitVal c of None \<Rightarrow> acc | Some d \<Rightarrow> digitsValue R (acc * R + d) cs)"

definition parseInt :: "string \<Rightarrow> int option \<Rightarrow> jsnum" where
  "parseInt string radix =
     (let S = dropWhile isSpace string;
          negative = (S \<noteq> [] \<and> hd S = CHR ''-'');
          S = (if S \<noteq> [] \<and> (hd S = CHR ''+'' \<or> hd S = CHR ''-'') then tl S else S);
          hex = (radix = Some 16 \<or> radix = None) \<and> (prefix ''0x'' S \<or> prefix ''0X'' S);
          S = (if hex then drop 2 S else S);
          R = (if hex then 16 else case radix of None \<Rightarrow> 10 | Some r \<Rightarrow> r);
          Z = takeWhile (isDigitOf R) S
      in if Z = [] then NaN
         else case toDouble (digitsValue R 0 Z) of
                None \<Rightarrow> if negative then NegInf else PosInf
              | Some n \<Rightarrow> Num (if negative then - n else n))"

text \<open>A value that may be \<open>null\<close> (\<open>None\<close>) where a string is expected, as a value.\<close>

definition orNull :: "string option \<Rightarrow> jsval" where
  "orNull r = (case r of None \<Rightarrow> JNull | Some s \<Rightarrow> JString s)"

text \<open>\<open>a <= x && x <= b\<close> on a Number: NaN compares false.\<close>

definition between :: "int \<Rightarrow> jsnum \<Rightarrow> int \<Rightarrow> bool" where
  "between a x b =
     (case x of Num i \<Rightarrow> a \<le> i \<and> i \<le> b | NaN \<Rightarrow> False | PosInf \<Rightarrow> False | NegInf \<Rightarrow> False)"

section \<open>The transport\<close>

text \<open>
  \<open>fetch\<close> is the one capability the routines use: it sends a request and gives
  back a response, or throws an error with a name. Within one routine no request is
  sent twice, so a transport is a function of the request. A routine is modelled by
  what it returns or throws together with the requests it has sent, in order.
  \<open>JsTypeError\<close> is the TypeError of the engine on a property read of \<open>null\<close> or
  \<open>undefined\<close>; \<open>NeverReturns\<close> stands for a loop that does not end.
\<close>

datatype request =
  GET string
| POST string "(string \<times> string) list" "nat option"

record response =
  status :: int
  text_of :: string

datatype fetchError = FetchError (errorName: string)

type_synonym transport = "request \<Rightarrow> fetchError + response"

datatype error = Thrown fetchError | JsTypeError | NeverReturns

type_synonym 'a io = "(error + 'a) \<times> request list"

definition fetch :: "transport \<Rightarrow> request \<Rightarrow> response io" where
  "fetch net r = (case net r of Inl e \<Rightarrow> (Inl (Thrown e), [r]) | Inr resp \<Rightarrow> (Inr resp, [r]))"

definition ret :: "'a \<Rightarrow> 'a io" where
  "ret x = (Inr x, [])"

definition throw :: "error \<Rightarrow> 'a io" where
  "throw e = (Inl e, [])"

text \<open>\<open>await m; rest\<close>: an error of \<open>m\<close> leaves the routine, with what was sent so far.\<close>

definition await :: "'a io \<Rightarrow> ('a \<Rightarrow> 'b io) \<Rightarrow> 'b io" where
  "await m rest =
     (case m of
        (Inl e, sent) \<Rightarrow> (Inl e, sent)
      | (Inr x, sent) \<Rightarrow> (case rest x of (r, sent') \<Rightarrow> (r, sent @ sent')))"

definition LOGIN_PATH :: string where "LOGIN_PATH = '':80/logon.cgi''"
definition LOGOUT_PATH :: string where "LOGOUT_PATH = '':80/Logout.htm''"
definition SWITCH_INFO_PATH :: string where "SWITCH_INFO_PATH = '':80/SystemInfoRpm.htm''"
definition PORT_INFO_1_PATH :: string where "PORT_INFO_1_PATH = '':80/PortSettingRpm.htm''"
definition PORT_INFO_2_PATH :: string where "PORT_INFO_2_PATH = '':80/PortStatisticsRpm.htm''"
definition VLAN_INFO_PATH :: string where "VLAN_INFO_PATH = '':80/Vlan8021QRpm.htm''"
definition SWITCH_PATH :: string where "SWITCH_PATH = '':80/system_name_set.cgi''"
definition VLAN_PATH :: string where "VLAN_PATH = '':80/qvlanSet.cgi''"
definition PORT_PATH :: string where "PORT_PATH = '':80/port_setting.cgi''"

definition SPEEDS :: "string list" where
  "SPEEDS = [''down'', ''Auto'', ''10MH'', ''10MF'', ''100MH'', ''100MF'', ''1000MF'', '''']"

definition STATES :: "string list" where
  "STATES = [''Disabled'', ''Enabled'']"

text \<open>
  \<open>_login\<close> and \<open>_logout\<close> (an identifier cannot start with an underscore here, so
  the private routines carry the prefix \<open>priv\<close>). The form of the login is kept as
  its fields; the third component of a POST is the time limit of the request in
  milliseconds, which only Diagnosis sets.
\<close>

definition loginRequest :: "string \<Rightarrow> string \<Rightarrow> string \<Rightarrow> nat option \<Rightarrow> request" where
  "loginRequest server username password limit =
     POST (''http://'' @ server @ LOGIN_PATH)
       [(''username'', username), (''password'', password), (''logon'', ''Login'')] limit"

definition logoutRequest :: "string \<Rightarrow> request" where
  "logoutRequest server = GET (''http://'' @ server @ LOGOUT_PATH)"

definition switchInfoRequest :: "string \<Rightarrow> request" where
  "switchInfoRequest server = GET (''http://'' @ server @ SWITCH_INFO_PATH)"

definition priv_login :: "transport \<Rightarrow> string \<Rightarrow> string \<Rightarrow> string \<Rightarrow> unit io" where
  "priv_login net server username password =
     await (fetch net (loginRequest server username password None)) (\<lambda>response. ret ())"

definition priv_logout :: "transport \<Rightarrow> string \<Rightarrow> unit io" where
  "priv_logout net server = await (fetch net (logoutRequest server)) (\<lambda>response. ret ())"

section \<open>Diagnosis\<close>

text \<open>
  \<^verbatim>\<open>
  let connection_state = 'not accessible';
  try {
    await fetch(url1, { method: 'POST', ..., signal: AbortSignal.timeout(1000) });
    connection_state = 'not authorized';
    const response2 = await fetch(url2)
    const status2 = response2.status;
    if (status2 == 200) { connection_state = 'authorized'; }
    await fetch(url3)
  } catch (error) {
    if (error.name !== 'AbortError') { console.error(...); process.exit(1); }
  }
  return connection_state;
  \<close>
  The three requests are inside one \<open>try\<close>; \<open>catch\<close> ends the process unless the
  error is an AbortError, and then the state reached so far is returned.
\<close>

datatype outcome = Returned string | ProcessExit nat

definition catchDiagnosis :: "fetchError \<Rightarrow> string \<Rightarrow> outcome" where
  "catchDiagnosis err connection_state =
     (if errorName err \<noteq> ''AbortError'' then ProcessExit 1 else Returned connection_state)"

definition Diagnosis :: "transport \<Rightarrow> string \<Rightarrow> string \<Rightarrow> string \<Rightarrow> outcome \<times> request list" where
  "Diagnosis net server username password =
     (let connection_state = ''not accessible'';
          request1 = loginRequest server username password (Some 1000)
      in case net request1 of
           Inl err \<Rightarrow> (catchDiagnosis err connection_state, [request1])
         | Inr response1 \<Rightarrow>
             let connection_state = ''not authorized'';
                 request2 = switchInfoRequest server
             in case net request2 of
                  Inl err \<Rightarrow> (catchDiagnosis err connection_state, [request1, request2])
                | Inr response2 \<Rightarrow>
                    let status2 = status response2;
                        connection_state =
                          (if status2 = 200 then ''authorized'' else connection_state);
                        request3 = logoutRequest server
                    in case net request3 of
                         Inl err \<Rightarrow>
                           (catchDiagnosis err connection_state, [request1, request2, request3])
                       | Inr response3 \<Rightarrow>
                           (Returned connection_state, [request1, request2, request3]))"

section \<open>SetSwitch, SetPort, SetVLAN\<close>

text \<open>
  The expression \<open>/^[a-zA-Z0-9-_]+$/\<close>, and \<open>regex.test(name)\<close>, which tests the
  string of its argument.
\<close>

definition nameChar :: "char \<Rightarrow> bool" where
  "nameChar c =
     (c \<in> set ''abcdefghijklmnopqrstuvwxyzABCDEFGHIJKLMNOPQRSTUVWXYZ0123456789-_'')"

definition regexTest :: "jsval \<Rightarrow> bool" where
  "regexTest v = (toString v \<noteq> [] \<and> list_all nameChar (toString v))"

text \<open>
  \<open>name.length < 32\<close>, read only where \<open>name\<close> is truthy: the length of a string or
  an array; a number or a boolean has no length, and \<open>undefined < 32\<close> is false.
\<close>

definition lengthBelow :: "jsval \<Rightarrow> nat \<Rightarrow> bool" where
  "lengthBelow v n =
     (case v of JString s \<Rightarrow> length s < n | JArray xs \<Rightarrow> length xs < n | _ \<Rightarrow> False)"

text \<open>
  \<^verbatim>\<open>
  await _login(server, username, password)
  if (name && name !== '' && name.length < 32 || regex.test(name)) {
    const url1 = 'http://' + server + SWITCH_PATH + '?sysName=' + name;
    await fetch(url1);
  }
  if (vlan && (vlan === 0 || vlan === 1)) {
    const url2 = 'http://' + server + VLAN_PATH + '?qvlan_en=' + vlan + '&qvlan_mode=Apply';
    await fetch(url2);
  }
  await _logout(server)
  \<close>
  \<open>&&\<close> binds tighter than \<open>||\<close>.
\<close>

definition renameRequest :: "string \<Rightarrow> jsval \<Rightarrow> request" where
  "renameRequest server name =
     GET (''http://'' @ server @ SWITCH_PATH @ ''?sysName='' @ toString name)"

definition vlanModeRequest :: "string \<Rightarrow> jsval \<Rightarrow> request" where
  "vlanModeRequest server vlan =
     GET (''http://'' @ server @ VLAN_PATH @ ''?qvlan_en='' @ toString vlan @ ''&qvlan_mode=Apply'')"

definition SetSwitch ::
  "transport \<Rightarrow> string \<Rightarrow> string \<Rightarrow> string \<Rightarrow> jsval \<Rightarrow> jsval \<Rightarrow> unit io" where
  "SetSwitch net server username password name vlan =
     await (priv_login net server username password) (\<lambda>_.
     await (if (truthy name \<and> name \<noteq> JString [] \<and> lengthBelow name 32) \<or> regexTest name
            then await (fetch net (renameRequest server name)) (\<lambda>_. ret ())
            else ret ()) (\<lambda>_.
     await (if truthy vlan \<and> (vlan = JNumber 0 \<or> vlan = JNumber 1)
            then await (fetch net (vlanModeRequest server vlan)) (\<lambda>_. ret ())
            else ret ()) (\<lambda>_.
     priv_logout net server)))"

text \<open>
  \<open>SPEED2VALUE[speed]\<close> reads the property named by the string of \<open>speed\<close>: one of
  the eight own properties, or a member that every object inherits from
  \<open>Object.prototype\<close> (a function, or for \<open>__proto__\<close> the prototype itself), or
  nothing. An inherited member is truthy; \<open>slotToString\<close> gives the text that Node
  prints for it.
\<close>

datatype slot = Index int | Builtin string | Missing

definition objectPrototype :: "string list" where
  "objectPrototype =
     [''constructor'', ''hasOwnProperty'', ''isPrototypeOf'', ''propertyIsEnumerable'',
      ''toLocaleString'', ''toString'', ''valueOf'', ''__proto__'', ''__defineGetter__'',
      ''__defineSetter__'', ''__lookupGetter__'', ''__lookupSetter__'']"

definition SPEED2VALUE :: "string \<Rightarrow> slot" where
  "SPEED2VALUE key =
     (case map_of [(''down'', 0), (''Auto'', 1), (''10MH'', 2), (''10MF'', 3), (''100MH'', 4),
                   (''100MF'', 5), (''1000MF'', 6), ('''', 7)] key of
        Some n \<Rightarrow> Index n
      | None \<Rightarrow> if key \<in> set objectPrototype then Builtin key else Missing)"

definition truthySlot :: "slot \<Rightarrow> bool" where
  "truthySlot v = (case v of Index n \<Rightarrow> n \<noteq> 0 | Builtin k \<Rightarrow> True | Missing \<Rightarrow> False)"

definition slotToString :: "slot \<Rightarrow> string" where
  "slotToString v =
     (case v of
        Index n \<Rightarrow> digitsOf n
      | Builtin k \<Rightarrow>
          if k = ''__proto__'' then ''[object Object]''
          else ''function '' @ (if k = ''constructor'' then ''Object'' else k) @ ''() { [native code] }''
      | Missing \<Rightarrow> ''undefined'')"

text \<open>
  \<^verbatim>\<open>
  await _login(server, username, password)
  const portIndex  = parseInt(port)
  const mode       = parseInt(state)
  const speedIndex = SPEED2VALUE[speed]
  if (1 <= portIndex && portIndex <= 8 && (mode === 0 || mode === 1)  &&  speedIndex) {
    const url = 'http://' + server + PORT_PATH + '?portid=' + portIndex + '&state=' + mode
              + '&speed=' + speedIndex + '&flowcontrol=0&apply=Apply';
    await fetch(url);
  }
  await _logout(server)
  \<close>
\<close>

definition portRequest :: "string \<Rightarrow> jsnum \<Rightarrow> jsnum \<Rightarrow> slot \<Rightarrow> request" where
  "portRequest server portIndex mode speedIndex =
     GET (''http://'' @ server @ PORT_PATH @ ''?portid='' @ numToString portIndex
          @ ''&state='' @ numToString mode @ ''&speed='' @ slotToString speedIndex
          @ ''&flowcontrol=0&apply=Apply'')"

definition SetPort ::
  "transport \<Rightarrow> string \<Rightarrow> string \<Rightarrow> string \<Rightarrow> jsval \<Rightarrow> jsval \<Rightarrow> jsval \<Rightarrow> unit io" where
  "SetPort net server username password port state speed =
     await (priv_login net server username password) (\<lambda>_.
     let portIndex = parseInt (toString port) None;
         mode = parseInt (toString state) None;
         speedIndex = SPEED2VALUE (toString speed)
     in await (if between 1 portIndex 8 \<and> (mode = Num 0 \<or> mode = Num 1) \<and> truthySlot speedIndex
               then await (fetch net (portRequest server portIndex mode speedIndex)) (\<lambda>_. ret ())
               else ret ()) (\<lambda>_.
        priv_logout net server))"

text \<open>
  \<^verbatim>\<open>
  await _login(server, username, password)
  const vlanIndex = parseInt(vlan)
  if (2 <= vlanIndex && vlanIndex <= 32 && name && name != '' && regex.test(name)
      && Array.isArray(members) ) {
    if (members.length === 0 ) {
      const url1 = 'http://' + server + VLAN_PATH + '?selVlans=' + vlanIndex + '&qvlan_del=Delete';
      await fetch(url1);
    } else {
      let url2 = 'http://' + server + VLAN_PATH + '?vid=' + vlanIndex + '&vname=' + name;
      url2 += '&selType_1=' + (members.includes(1) ? 1 : 2);
      ...
      url2 += '&selType_8=' + (members.includes(8) ? 1 : 2);
      url2 += '&qvlan_add=Add%2FModify';
      await fetch(url2);
    }
  }
  await _logout(server)
  \<close>
  \<open>name != ''\<close> compares loosely: a truthy name differs from the empty string unless
  it is an array whose string is empty. \<open>members.includes(n)\<close> finds the number
  \<open>n\<close> only, not its string.
\<close>

definition looseNotEmpty :: "jsval \<Rightarrow> bool" where
  "looseNotEmpty v =
     (case v of
        JUndefined \<Rightarrow> True | JNull \<Rightarrow> True | JBool b \<Rightarrow> b | JNumber i \<Rightarrow> i \<noteq> 0
      | JString s \<Rightarrow> s \<noteq> [] | JArray xs \<Rightarrow> toString (JArray xs) \<noteq> [])"

definition isArray :: "jsval \<Rightarrow> bool" where
  "isArray v = (case v of JArray xs \<Rightarrow> True | _ \<Rightarrow> False)"

definition elements :: "jsval \<Rightarrow> jsval list" where
  "elements v = (case v of JArray xs \<Rightarrow> xs | _ \<Rightarrow> [])"

definition arrayIncludes :: "jsval \<Rightarrow> int \<Rightarrow> bool" where
  "arrayIncludes members n = (JNumber n \<in> set (elements members))"

definition selType :: "jsval \<Rightarrow> int \<Rightarrow> string" where
  "selType members n = (if arrayIncludes members n then ''1'' else ''2'')"

definition vlanDeleteRequest :: "string \<Rightarrow> jsnum \<Rightarrow> request" where
  "vlanDeleteRequest server vlanIndex =
     (let url1 = ''http://'' @ server @ VLAN_PATH @ ''?selVlans='' @ numToString vlanIndex
                 @ ''&qvlan_del=Delete''
      in GET url1)"

definition vlanModifyRequest :: "string \<Rightarrow> jsnum \<Rightarrow> jsval \<Rightarrow> jsval \<Rightarrow> request" where
  "vlanModifyRequest server vlanIndex name members =
     (let url2 = ''http://'' @ server @ VLAN_PATH @ ''?vid='' @ numToString vlanIndex
                 @ ''&vname='' @ toString name;
          url2 = url2 @ ''&selType_1='' @ selType members 1;
          url2 = url2 @ ''&selType_2='' @ selType members 2;
          url2 = url2 @ ''&selType_3='' @ selType members 3;
          url2 = url2 @ ''&selType_4='' @ selType members 4;
          url2 = url2 @ ''&selType_5='' @ selType members 5;
          url2 = url2 @ ''&selType_6='' @ selType members 6;
          url2 = url2 @ ''&selType_7='' @ selType members 7;
          url2 = url2 @ ''&selType_8='' @ selType members 8;
          url2 = url2 @ ''&qvlan_add=Add%2FModify''
      in GET url2)"

definition SetVLAN ::
  "transport \<Rightarrow> string \<Rightarrow> string \<Rightarrow> string \<Rightarrow> jsval \<Rightarrow> jsval \<Rightarrow> jsval \<Rightarrow> unit io" where
  "SetVLAN net server username password vlan name members =
     await (priv_login net server username password) (\<lambda>_.
     let vlanIndex = parseInt (toString vlan) None
     in await
          (if between 2 vlanIndex 32 \<and> truthy name \<and> looseNotEmpty name \<and> regexTest name
              \<and> isArray members
           then if length (elements members) = 0
                then await (fetch net (vlanDeleteRequest server vlanIndex)) (\<lambda>_. ret ())
                else await (fetch net (vlanModifyRequest server vlanIndex name members))
                       (\<lambda>_. ret ())
           else ret ()) (\<lambda>_.
        priv_logout net server))"

section \<open>stripQuotes and extractAttribute\<close>

text \<open>
  \<^verbatim>\<open>
  function stripQuotes(txt) {
    if ( txt.startsWith('"') && txt.endsWith('"') ) {
      let value = txt;
      value = value.replace(/^"/, '');
      value = value.replace(/"$/, '');
      return value;
    }
    if (txt.startsWith('\'') && txt.endsWith('\'')) { ... the same with ' ... }
    return txt;
  }
  \<close>
  The second replacement looks at the text that the first one left, so a text of
  one quote alone becomes empty. \<open>CHR 0x22\<close> is the double quote and \<open>CHR 0x27\<close>
  the single quote.
\<close>

definition startsWith :: "string \<Rightarrow> char \<Rightarrow> bool" where
  "startsWith txt c = (txt \<noteq> [] \<and> hd txt = c)"

definition endsWith :: "string \<Rightarrow> char \<Rightarrow> bool" where
  "endsWith txt c = (txt \<noteq> [] \<and> last txt = c)"

definition stripQuotes :: "string \<Rightarrow> string" where
  "stripQuotes txt =
     (if startsWith txt (CHR 0x22) \<and> endsWith txt (CHR 0x22)
      then let value = txt;
               value = (if startsWith value (CHR 0x22) then tl value else value);
               value = (if endsWith value (CHR 0x22) then butlast value else value)
           in value
      else if startsWith txt (CHR 0x27) \<and> endsWith txt (CHR 0x27)
      then let value = txt;
               value = (if startsWith value (CHR 0x27) then tl value else value);
               value = (if endsWith value (CHR 0x27) then butlast value else value)
           in value
      else txt)"

text \<open>
  \<^verbatim>\<open>
  function extractAttribute(txt, attribute) {
    const aString    = "'([^']*)'";
    const aBoolean   = '\\b(true|false)\\b';
    const aNumber    = '\\b(\\d+\\.?\\d?)?\\b';
    const aList      = '\\[([^\\]]*)\\]';
    const aDict      = '\\{([^}]*)\\}';
    const expression = attribute + '\\s*:\\s*' + '(?:' + aString + '|' + aBoolean + '|'
                     + aNumber + '|' + aList + '|' + aDict + ')';
    const regex      = new RegExp(expression)
    const match = txt.match(regex)
    if (!match) { return null }
    for (let i = 1; i <= 5; i++) {
      if (match[i]) {
        let value = match[i].trim()
        if (i != 4 && i != 5) { value = stripQuotes(value) }
        return value
      }
    }
    return null
  }
  \<close>
  As in extractVariable the attribute name is read as literal text. After the name
  each \<open>\s*\<close> takes all the white space there is: giving a character back puts a
  white space character where \<open>:\<close>, a quote, a bracket, a brace or, for \<open>\b\<close>, a word
  character after a word character would have to stand. So the five alternatives
  are tried once, at the first character after the white space, where the character
  before is the colon or white space and \<open>\b\<close> asks for a word character next.

  Each alternative gives its group when it matches. The number is special: its
  group is optional, so at a word character it always matches, with the group
  undefined when no run of digits ends at a word boundary. \<open>numberTries\<close> lists the
  lengths that \<open>\d+\.?\d?\<close> tries, in the order of the backtracking: the digits
  greedily, then the dot, then one more digit, each given back in turn.
\<close>

definition startsWord :: "string \<Rightarrow> bool" where
  "startsWord s = (s \<noteq> [] \<and> isWord (hd s))"

text \<open>\<open>\b\<close> between a character that is a word character or not, and the rest.\<close>

definition boundary :: "bool \<Rightarrow> string \<Rightarrow> bool" where
  "boundary wordBefore s = (wordBefore \<noteq> startsWord s)"

definition delimited :: "char \<Rightarrow> char \<Rightarrow> string \<Rightarrow> string option" where
  "delimited opening closing s =
     (case s of
        [] \<Rightarrow> None
      | c # r \<Rightarrow> if c = opening \<and> closing \<in> set r
                 then Some (takeWhile (\<lambda>x. x \<noteq> closing) r) else None)"

definition aString :: "string \<Rightarrow> string option" where
  "aString s = delimited (CHR 0x27) (CHR 0x27) s"

definition aBoolean :: "string \<Rightarrow> string option" where
  "aBoolean s =
     (if boundary False s
      then if prefix ''true'' s \<and> boundary True (drop 4 s) then Some ''true''
           else if prefix ''false'' s \<and> boundary True (drop 5 s) then Some ''false''
           else None
      else None)"

definition numberTries :: "string \<Rightarrow> nat \<Rightarrow> nat list" where
  "numberTries s k =
     (let rest = drop k s
      in (if startsWith rest CHR ''.''
          then (if tl rest \<noteq> [] \<and> isDigit (hd (tl rest)) then [k + 2] else []) @ [k + 1]
          else [])
         @ (if rest \<noteq> [] \<and> isDigit (hd rest) then [k + 1] else [])
         @ [k])"

definition aNumber :: "string \<Rightarrow> string option option" where
  "aNumber s =
     (if boundary False s
      then let n = length (takeWhile isDigit s);
               tries = concat (map (numberTries s) (rev [1..<Suc n]))
           in case find (\<lambda>l. boundary (isWord (last (take l s))) (drop l s)) tries of
                None \<Rightarrow> Some None
              | Some l \<Rightarrow> Some (Some (take l s))
      else None)"

definition aList :: "string \<Rightarrow> string option" where
  "aList s = delimited CHR ''['' CHR '']'' s"

definition aDict :: "string \<Rightarrow> string option" where
  "aDict s = delimited CHR ''{'' CHR ''}'' s"

text \<open>The groups 1 to 5 of a match of the alternatives, \<open>None\<close> for an undefined one.\<close>

definition valueShapes :: "string \<Rightarrow> string option list option" where
  "valueShapes s =
     (case aString s of
        Some g \<Rightarrow> Some [Some g, None, None, None, None]
      | None \<Rightarrow>
     (case aBoolean s of
        Some g \<Rightarrow> Some [None, Some g, None, None, None]
      | None \<Rightarrow>
     (case aNumber s of
        Some g \<Rightarrow> Some [None, None, g, None, None]
      | None \<Rightarrow>
     (case aList s of
        Some g \<Rightarrow> Some [None, None, None, Some g, None]
      | None \<Rightarrow>
     (case aDict s of
        Some g \<Rightarrow> Some [None, None, None, None, Some g]
      | None \<Rightarrow> None)))))"

definition attrAt :: "string \<Rightarrow> string \<Rightarrow> string option list option" where
  "attrAt attribute s =
     (if prefix attribute s
      then (case dropWhile isSpace (drop (length attribute) s) of
              [] \<Rightarrow> None
            | c # r \<Rightarrow> if c = CHR '':'' then valueShapes (dropWhile isSpace r) else None)
      else None)"

text \<open>The loop over the groups: \<open>if (match[i])\<close> passes over an empty group too.\<close>

fun firstValue :: "nat \<Rightarrow> string option list \<Rightarrow> string option" where
  "firstValue i [] = None"
| "firstValue i (g # groups) =
     (case g of
        None \<Rightarrow> firstValue (Suc i) groups
      | Some m \<Rightarrow>
          if m \<noteq> []
          then let value = trim m
               in Some (if i \<noteq> 4 \<and> i \<noteq> 5 then stripQuotes value else value)
          else firstValue (Suc i) groups)"

definition extractAttribute :: "string \<Rightarrow> string \<Rightarrow> string option" where
  "extractAttribute txt attribute =
     (case searchFrom (attrAt attribute) txt of
        None \<Rightarrow> None
      | Some groups \<Rightarrow> firstValue 1 groups)"

section \<open>The membership bit mask of a VLAN\<close>

text \<open>
  \<^verbatim>\<open>
  vlan.tagged = []
  const tagged_value = parseInt(tag[vlanIndex], 16);
  for (let portIndex = 0; portIndex < 16; portIndex++) {
    const isBitSet = (tagged_value & (1 << portIndex)) !== 0;
    if (isBitSet) { vlan.tagged.push(portIndex +1) }
  }
  \<close>
  and the same for \<open>untagged\<close>. \<open>&\<close> works on the 32 bit integer of its operands
  (ToInt32: NaN and the infinities are 0, an integer is taken modulo \<open>2^32\<close>).
\<close>

definition toInt32 :: "jsnum \<Rightarrow> 32 word" where
  "toInt32 x = (case x of Num i \<Rightarrow> word_of_int i | NaN \<Rightarrow> 0 | PosInf \<Rightarrow> 0 | NegInf \<Rightarrow> 0)"

definition isBitSet :: "jsnum \<Rightarrow> nat \<Rightarrow> bool" where
  "isBitSet mbrs_value portIndex = (toInt32 mbrs_value AND push_bit portIndex 1 \<noteq> 0)"

definition maskPorts :: "jsnum \<Rightarrow> int list" where
  "maskPorts mbrs_value =
     map (\<lambda>portIndex. int portIndex + 1) (filter (isBitSet mbrs_value) [0..<16])"

definition decodeMembers :: "jsval \<Rightarrow> int list" where
  "decodeMembers mbrs = maskPorts (parseInt (toString mbrs) (Some 16))"


section \<open>extractTagContent\<close>

text \<open>
  \<^verbatim>\<open>
  function extractTagContent(txt, tag, n) {
    const openTag    = '<' + tag + '>'
    const content    = '([\\s\\S]*?)'
    const closeTag   = '<\\/' + tag + '>'
    const expression = openTag + content + closeTag
    const regex      = new RegExp(expression, 'gi')
    const matches = txt.match(regex)
    if (!matches || matches.length <= n) { return null }
    const result = matches[n].substr(openTag.length).slice(0, -closeTag.length);
    return result
  }
  \<close>
  With the flag \<open>g\<close>, \<open>match\<close> gives the texts of all matches, from left to right,
  each search starting where the match before ended, or \<open>null\<close> when there is none.
  The flag \<open>i\<close> ignores the case of letters; \<open>upper\<close> is exact for a tag of ASCII
  characters (the tag is always \<open>script\<close>). The lazy group ends at the first closing
  tag. As an expression \<open>closeTag\<close> matches \<open><\<close>, \<open>/\<close>, the tag and \<open>>\<close>; as a string
  it has a backslash (\<open>CHR 0x5C\<close>) more, and \<open>slice\<close> cuts that many characters off
  the end.
\<close>

definition upper :: "char \<Rightarrow> char" where
  "upper c = (let n = (of_char c :: int) in if 97 \<le> n \<and> n \<le> 122 then char_of (n - 32) else c)"

definition ciPrefix :: "string \<Rightarrow> string \<Rightarrow> bool" where
  "ciPrefix p s = (length p \<le> length s \<and> map upper p = map upper (take (length p) s))"

fun untilClose :: "string \<Rightarrow> string \<Rightarrow> string option" where
  "untilClose closing [] = (if ciPrefix closing [] then Some [] else None)"
| "untilClose closing (c # cs) =
     (if ciPrefix closing (c # cs) then Some []
      else case untilClose closing cs of None \<Rightarrow> None | Some content \<Rightarrow> Some (c # content))"

text \<open>
  \<open>tagMatches skip\<close> passes over \<open>skip\<close> characters, the rest of a match just found,
  and then looks for the next match at each position in turn.
\<close>

fun tagMatches :: "nat \<Rightarrow> string \<Rightarrow> string \<Rightarrow> string \<Rightarrow> string list" where
  "tagMatches skip opening closing [] = []"
| "tagMatches skip opening closing (c # cs) =
     (if 0 < skip then tagMatches (skip - 1) opening closing cs
      else if ciPrefix opening (c # cs)
      then (case untilClose closing (drop (length opening) (c # cs)) of
              None \<Rightarrow> tagMatches 0 opening closing cs
            | Some content \<Rightarrow>
                let m = take (length opening + length content + length closing) (c # cs)
                in m # tagMatches (length m - 1) opening closing cs)
      else tagMatches 0 opening closing cs)"

definition extractTagContent :: "string \<Rightarrow> string \<Rightarrow> nat \<Rightarrow> string option" where
  "extractTagContent txt tag n =
     (let openTag = ''<'' @ tag @ ''>'';
          closeTag = ''<'' @ [CHR 0x5C] @ ''/'' @ tag @ ''>'';
          matches = tagMatches 0 openTag (''</'' @ tag @ ''>'') txt
      in if matches = [] \<or> length matches \<le> n then None
         else let result = drop (length openTag) (matches ! n);
                  result = take (length result - length closeTag) result
              in Some result)"

section \<open>Info: reading the state of the switch\<close>

text \<open>
  The object \<open>swtch\<close> and the objects in its arrays are records whose fields are
  optional: \<open>None\<close> is a property that has not been set. Where a property is set to
  the element of a table, the element may be \<open>undefined\<close>: \<open>STATES[x]\<close> for a number
  \<open>x\<close> is an element or undefined (\<open>None\<close>); \<open>SPEEDS[key]\<close> for a string is the element
  when the key is the decimal numeral of an index, and else whatever the array has
  under that name, which is undefined unless the key is \<open>length\<close> or names a member
  that arrays inherit (\<open>NoElement key\<close>). An array is a list of slots, \<open>None\<close> for a
  hole; writing at an index beyond the end leaves holes.
\<close>

datatype element = Element string | NoElement string

record port =
  port_number :: int
  port_state :: "string option"
  port_speed :: element
  port_link :: "element option"
  port_TxGoodPkt :: "jsnum option"
  port_TxBadPkt :: "jsnum option"
  port_RxGoodPkt :: "jsnum option"
  port_RxBadPkt :: "jsnum option"

record vlan =
  vlan_name :: string
  vlan_id :: jsnum
  vlan_tagged :: "int list"
  vlan_untagged :: "int list"

record switch =
  sw_hardware :: "string option"
  sw_fimrware :: "string option"
  sw_name :: "string option"
  sw_mac :: "string option"
  sw_ip :: "string option"
  sw_netmask :: "string option"
  sw_gateway :: "string option"
  sw_vlan :: "string option option"
  sw_ports :: "port option list option"
  sw_vlans :: "vlan option list option"

definition emptySwitch :: switch where
  "emptySwitch =
     \<lparr>sw_hardware = None, sw_fimrware = None, sw_name = None, sw_mac = None, sw_ip = None,
      sw_netmask = None, sw_gateway = None, sw_vlan = None, sw_ports = None, sw_vlans = None\<rparr>"

definition STATES_at :: "jsnum \<Rightarrow> string option" where
  "STATES_at x =
     (case x of
        Num i \<Rightarrow> if 0 \<le> i \<and> i < int (length STATES) then Some (STATES ! nat i) else None
      | NaN \<Rightarrow> None | PosInf \<Rightarrow> None | NegInf \<Rightarrow> None)"

definition indexOfKey :: "string \<Rightarrow> int option" where
  "indexOfKey k =
     (if k \<noteq> [] \<and> list_all isDigit k \<and> (k = ''0'' \<or> hd k \<noteq> CHR ''0'')
      then Some (digitsValue 10 0 k) else None)"

definition SPEEDS_at :: "jsval \<Rightarrow> element" where
  "SPEEDS_at key =
     (case indexOfKey (toString key) of
        None \<Rightarrow> NoElement (toString key)
      | Some i \<Rightarrow> if i < int (length SPEEDS) then Element (SPEEDS ! nat i)
                  else NoElement (toString key))"

text \<open>\<open>xs[i]\<close> on the pieces of a split text: a string, or undefined out of range.\<close>

definition arrayAt :: "string list \<Rightarrow> int \<Rightarrow> jsval" where
  "arrayAt xs i = (if 0 \<le> i \<and> i < int (length xs) then JString (xs ! nat i) else JUndefined)"

definition slotAt :: "'a option list \<Rightarrow> int \<Rightarrow> 'a option" where
  "slotAt xs i = (if 0 \<le> i \<and> i < int (length xs) then xs ! nat i else None)"

definition arraySet :: "'a option list \<Rightarrow> int \<Rightarrow> 'a \<Rightarrow> 'a option list" where
  "arraySet xs i x =
     (if i < int (length xs) then xs[nat i := Some x]
      else xs @ replicate (nat i - length xs) None @ [Some x])"

text \<open>\<open>text.split(',')\<close>, and the TypeError of a method call on \<open>null\<close>.\<close>

fun splitAt :: "char \<Rightarrow> string \<Rightarrow> string \<Rightarrow> string list" where
  "splitAt sep piece [] = [rev piece]"
| "splitAt sep piece (c # cs) =
     (if c = sep then rev piece # splitAt sep [] cs else splitAt sep (c # piece) cs)"

definition split :: "string option \<Rightarrow> error + string list" where
  "split txt = (case txt of None \<Rightarrow> Inl JsTypeError | Some s \<Rightarrow> Inr (splitAt CHR '','' [] s))"

definition stripQuotesOf :: "jsval \<Rightarrow> error + string" where
  "stripQuotesOf txt = (case txt of JString s \<Rightarrow> Inr (stripQuotes s) | _ \<Rightarrow> Inl JsTypeError)"

definition attempt :: "error + 'a \<Rightarrow> 'a io" where
  "attempt r = (r, [])"

definition isTruthy :: "string option \<Rightarrow> bool" where
  "isTruthy scrpt = (case scrpt of None \<Rightarrow> False | Some s \<Rightarrow> s \<noteq> [])"

definition theText :: "string option \<Rightarrow> string" where
  "theText scrpt = (case scrpt of None \<Rightarrow> [] | Some s \<Rightarrow> s)"

text \<open>
  \<open>for (var i = 0; i < bound; i++) body\<close>, where the body may throw. \<open>i++\<close> is exact
  below \<open>2^53\<close> and leaves \<open>2^53\<close> as it is, so a loop that reaches \<open>2^53\<close> below its
  bound never returns.
\<close>

definition lessThanNum :: "int \<Rightarrow> jsnum \<Rightarrow> bool" where
  "lessThanNum i bound =
     (case bound of Num n \<Rightarrow> i < n | PosInf \<Rightarrow> True | NaN \<Rightarrow> False | NegInf \<Rightarrow> False)"

function forLoop :: "jsnum \<Rightarrow> (int \<Rightarrow> 's \<Rightarrow> error + 's) \<Rightarrow> int \<Rightarrow> 's \<Rightarrow> error + 's" where
  "forLoop bound body i s =
     (if lessThanNum i bound
      then (case body i s of
              Inl e \<Rightarrow> Inl e
            | Inr s' \<Rightarrow> if 2 ^ 53 \<le> i then Inl NeverReturns else forLoop bound body (i + 1) s')
      else Inr s)"
  by pat_completeness auto
termination
  by (relation "measure (\<lambda>(bound, body, i, s). nat (2 ^ 53 - i))") auto

declare forLoop.simps [simp del]

text \<open>
  \<^verbatim>\<open>
  if (scrpt) {
    swtch.hardware = stripQuotes(extractAttribute(scrpt, 'hardwareStr'));
    swtch.fimrware = stripQuotes(extractAttribute(scrpt, 'firmwareStr'));
    swtch.name     = stripQuotes(extractAttribute(scrpt, 'descriStr'));
    swtch.mac      = stripQuotes(extractAttribute(scrpt, 'macStr'));
    swtch.ip       = stripQuotes(extractAttribute(scrpt, 'ipStr'));
    swtch.netmask  = stripQuotes(extractAttribute(scrpt, 'netmaskStr'));
    swtch.gateway  = stripQuotes(extractAttribute(scrpt, 'gatewayStr'));
    swtch.vlan     = STATES[0];
    swtch.ports    = [];
    swtch.vlans    = [];
  }
  \<close>
\<close>

definition attributeOf :: "string \<Rightarrow> string \<Rightarrow> string io" where
  "attributeOf scrpt attribute = attempt (stripQuotesOf (orNull (extractAttribute scrpt attribute)))"

definition identityFields :: "string \<Rightarrow> switch \<Rightarrow> switch io" where
  "identityFields scrpt swtch =
     await (attributeOf scrpt ''hardwareStr'') (\<lambda>hardware.
     await (attributeOf scrpt ''firmwareStr'') (\<lambda>fimrware.
     await (attributeOf scrpt ''descriStr'') (\<lambda>name.
     await (attributeOf scrpt ''macStr'') (\<lambda>mac.
     await (attributeOf scrpt ''ipStr'') (\<lambda>ip.
     await (attributeOf scrpt ''netmaskStr'') (\<lambda>netmask.
     await (attributeOf scrpt ''gatewayStr'') (\<lambda>gateway.
     ret (swtch\<lparr>sw_hardware := Some hardware, sw_fimrware := Some fimrware,
                sw_name := Some name, sw_mac := Some mac, sw_ip := Some ip,
                sw_netmask := Some netmask, sw_gateway := Some gateway,
                sw_vlan := Some (STATES_at (Num 0)), sw_ports := Some [],
                sw_vlans := Some []\<rparr>))))))))"

text \<open>
  \<^verbatim>\<open>
  async function _portInfo1(server, swtch) {
    const response = await fetch(url)
    const data   = await response.text();
    const scrpt = extractTagContent(data, 'script', 0);
    if (scrpt) {
      var ports  = parseInt(extractVariable(scrpt, 'max_port_num') );
      var states = extractAttribute(scrpt, 'state').split(',')
      var speeds = extractAttribute(scrpt, 'spd_act').split(',')
      for (var portIndex = 0; portIndex < ports; portIndex++) {
        swtch.ports[portIndex]  = {};
        const port = swtch.ports[portIndex];
        port.number = portIndex + 1;
        port.state  = STATES[parseInt(states[portIndex])];
        port.speed  = SPEEDS[speeds[portIndex]];
      }
    }
  }
  \<close>
\<close>

definition portInfo1Request :: "string \<Rightarrow> request" where
  "portInfo1Request server = GET (''http://'' @ server @ PORT_INFO_1_PATH)"

definition newPort :: "string list \<Rightarrow> string list \<Rightarrow> int \<Rightarrow> switch \<Rightarrow> error + switch" where
  "newPort states speeds portIndex swtch =
     (case sw_ports swtch of
        None \<Rightarrow> Inl JsTypeError
      | Some ports \<Rightarrow>
          let port = \<lparr>port_number = portIndex + 1,
                      port_state = STATES_at (parseInt (toString (arrayAt states portIndex)) None),
                      port_speed = SPEEDS_at (arrayAt speeds portIndex),
                      port_link = None, port_TxGoodPkt = None, port_TxBadPkt = None,
                      port_RxGoodPkt = None, port_RxBadPkt = None\<rparr>
          in Inr (swtch\<lparr>sw_ports := Some (arraySet ports portIndex port)\<rparr>))"

definition priv_portInfo1 :: "transport \<Rightarrow> string \<Rightarrow> switch \<Rightarrow> switch io" where
  "priv_portInfo1 net server swtch =
     await (fetch net (portInfo1Request server)) (\<lambda>response.
     let data = text_of response;
         scrpt = extractTagContent data ''script'' 0
     in if isTruthy scrpt
        then let ports = parseInt (toString (orNull (extractVariable (theText scrpt) ''max_port_num''))) None
             in await (attempt (split (extractAttribute (theText scrpt) ''state''))) (\<lambda>states.
                await (attempt (split (extractAttribute (theText scrpt) ''spd_act''))) (\<lambda>speeds.
                attempt (forLoop ports (newPort states speeds) 0 swtch)))
        else ret swtch)"

text \<open>
  \<^verbatim>\<open>
  async function _portInfo2(server, swtch) {
    ...
    if (scrpt) {
      var ports = parseInt(extractVariable(scrpt, 'max_port_num'));
      var links = extractAttribute(scrpt, 'link_status').split(',')
      var pkts  = extractAttribute(scrpt, 'pkts').split(',')
      for (var portIndex = 0; portIndex < ports; portIndex++) {
        const port     = swtch.ports[portIndex];
        port.link      = SPEEDS[links[portIndex]];
        port.TxGoodPkt = parseInt(pkts[4 * portIndex + 0]);
        port.TxBadPkt  = parseInt(pkts[4 * portIndex + 1]);
        port.RxGoodPkt = parseInt(pkts[4 * portIndex + 2]);
        port.RxBadPkt  = parseInt(pkts[4 * portIndex + 3]);
      }
    }
  }
  \<close>
  There is no test of \<open>port\<close>: where \<open>swtch.ports\<close> is not set, or has no object at
  the index, \<open>port.link = ...\<close> throws a TypeError.
\<close>

definition portInfo2Request :: "string \<Rightarrow> request" where
  "portInfo2Request server = GET (''http://'' @ server @ PORT_INFO_2_PATH)"

definition filledPort :: "string list \<Rightarrow> string list \<Rightarrow> int \<Rightarrow> port \<Rightarrow> port" where
  "filledPort links pkts portIndex port =
     (let port = port\<lparr>port_link := Some (SPEEDS_at (arrayAt links portIndex))\<rparr>;
          port = port\<lparr>port_TxGoodPkt :=
                   Some (parseInt (toString (arrayAt pkts (4 * portIndex + 0))) None)\<rparr>;
          port = port\<lparr>port_TxBadPkt :=
                   Some (parseInt (toString (arrayAt pkts (4 * portIndex + 1))) None)\<rparr>;
          port = port\<lparr>port_RxGoodPkt :=
                   Some (parseInt (toString (arrayAt pkts (4 * portIndex + 2))) None)\<rparr>;
          port = port\<lparr>port_RxBadPkt :=
                   Some (parseInt (toString (arrayAt pkts (4 * portIndex + 3))) None)\<rparr>
      in port)"

definition fillPort :: "string list \<Rightarrow> string list \<Rightarrow> int \<Rightarrow> switch \<Rightarrow> error + switch" where
  "fillPort links pkts portIndex swtch =
     (case sw_ports swtch of
        None \<Rightarrow> Inl JsTypeError
      | Some ports \<Rightarrow>
          (case slotAt ports portIndex of
             None \<Rightarrow> Inl JsTypeError
           | Some port \<Rightarrow>
               Inr (swtch\<lparr>sw_ports :=
                      Some (ports[nat portIndex := Some (filledPort links pkts portIndex port)])\<rparr>)))"

definition priv_portInfo2 :: "transport \<Rightarrow> string \<Rightarrow> switch \<Rightarrow> switch io" where
  "priv_portInfo2 net server swtch =
     await (fetch net (portInfo2Request server)) (\<lambda>response.
     let data = text_of response;
         scrpt = extractTagContent data ''script'' 0
     in if isTruthy scrpt
        then let ports = parseInt (toString (orNull (extractVariable (theText scrpt) ''max_port_num''))) None
             in await (attempt (split (extractAttribute (theText scrpt) ''link_status''))) (\<lambda>links.
                await (attempt (split (extractAttribute (theText scrpt) ''pkts''))) (\<lambda>pkts.
                attempt (forLoop ports (fillPort links pkts) 0 swtch)))
        else ret swtch)"

text \<open>
  \<^verbatim>\<open>
  async function _vlanInfo(server, swtch) {
    ...
    if (scrpt) {
      swtch.vlan = STATES[parseInt(extractAttribute(scrpt, 'state'))];
      var vlans = parseInt(extractAttribute(scrpt, 'count'));
      var vids  = extractAttribute(scrpt, 'vids').split(',');
      var names = extractAttribute(scrpt, 'names').split(',');
      var tag   = extractAttribute(scrpt, 'tagMbrs').split(',');
      var untag = extractAttribute(scrpt, 'untagMbrs').split(',');
      for (var vlanIndex = 0; vlanIndex < vlans; vlanIndex++) {
        swtch.vlans[vlanIndex] = {};
        const vlan    = swtch.vlans[vlanIndex];
        vlan.name     = stripQuotes(names[vlanIndex]);
        vlan.id       = parseInt(vids[vlanIndex]);
        vlan.tagged = []     ... the loop over the sixteen bits of tag[vlanIndex] ...
        vlan.untagged = []   ... the loop over the sixteen bits of untag[vlanIndex] ...
      }
    }
  }
  \<close>
\<close>

definition vlanInfoRequest :: "string \<Rightarrow> request" where
  "vlanInfoRequest server = GET (''http://'' @ server @ VLAN_INFO_PATH)"

definition newVlan ::
  "string list \<Rightarrow> string list \<Rightarrow> string list \<Rightarrow> string list \<Rightarrow> int \<Rightarrow> switch \<Rightarrow> error + switch" where
  "newVlan vids names tag untag vlanIndex swtch =
     (case sw_vlans swtch of
        None \<Rightarrow> Inl JsTypeError
      | Some vlans \<Rightarrow>
          (case stripQuotesOf (arrayAt names vlanIndex) of
             Inl e \<Rightarrow> Inl e
           | Inr name \<Rightarrow>
               let vlan = \<lparr>vlan_name = name,
                           vlan_id = parseInt (toString (arrayAt vids vlanIndex)) None,
                           vlan_tagged = decodeMembers (arrayAt tag vlanIndex),
                           vlan_untagged = decodeMembers (arrayAt untag vlanIndex)\<rparr>
               in Inr (swtch\<lparr>sw_vlans := Some (arraySet vlans vlanIndex vlan)\<rparr>)))"

definition priv_vlanInfo :: "transport \<Rightarrow> string \<Rightarrow> switch \<Rightarrow> switch io" where
  "priv_vlanInfo net server swtch =
     await (fetch net (vlanInfoRequest server)) (\<lambda>response.
     let data = text_of response;
         scrpt = extractTagContent data ''script'' 0
     in if isTruthy scrpt
        then let swtch = swtch\<lparr>sw_vlan := Some (STATES_at
                   (parseInt (toString (orNull (extractAttribute (theText scrpt) ''state''))) None))\<rparr>;
                 vlans = parseInt (toString (orNull (extractAttribute (theText scrpt) ''count''))) None
             in await (attempt (split (extractAttribute (theText scrpt) ''vids''))) (\<lambda>vids.
                await (attempt (split (extractAttribute (theText scrpt) ''names''))) (\<lambda>names.
                await (attempt (split (extractAttribute (theText scrpt) ''tagMbrs''))) (\<lambda>tag.
                await (attempt (split (extractAttribute (theText scrpt) ''untagMbrs''))) (\<lambda>untag.
                attempt (forLoop vlans (newVlan vids names tag untag) 0 swtch)))))
        else ret swtch)"

text \<open>
  \<^verbatim>\<open>
  async function _switchInfo(server) {
    const swtch = {};
    const response = await fetch(url)
    const data   = await response.text();
    const scrpt = extractTagContent(data, 'script', 0);
    if (scrpt) { ... }
    await _portInfo1(server, swtch)
    await _portInfo2(server, swtch)
    await _vlanInfo(server, swtch)
    return {switch: swtch};
  }

  async function Info(server, username, password) {
    let result = {};
    await _login(server, username, password)
    result = await _switchInfo(server)
    await _logout(server)
    return result
  }
  \<close>
\<close>

definition priv_switchInfo :: "transport \<Rightarrow> string \<Rightarrow> switch io" where
  "priv_switchInfo net server =
     (let swtch = emptySwitch
      in await (fetch net (switchInfoRequest server)) (\<lambda>response.
         let data = text_of response;
             scrpt = extractTagContent data ''script'' 0
         in await (if isTruthy scrpt then identityFields (theText scrpt) swtch else ret swtch)
              (\<lambda>swtch.
            await (priv_portInfo1 net server swtch) (\<lambda>swtch.
            await (priv_portInfo2 net server swtch) (\<lambda>swtch.
            await (priv_vlanInfo net server swtch) (\<lambda>swtch.
            ret swtch))))))"

definition Info :: "transport \<Rightarrow> string \<Rightarrow> string \<Rightarrow> string \<Rightarrow> switch io" where
  "Info net server username password =
     await (priv_login net server username password) (\<lambda>_.
     await (priv_switchInfo net server) (\<lambda>result.
     await (priv_logout net server) (\<lambda>_.
     ret result)))"

section \<open>A switch for the examples\<close>

text \<open>A transport that answers every request with status 200 and the given page.\<close>

definition answering :: "string \<Rightarrow> transport" where
  "answering page = (\<lambda>r. Inr \<lparr>status = 200, text_of = page\<rparr>)"

text \<open>
  A transport on which one request throws an error of the given name and every
  other request is answered with status 200 and an empty page.
\<close>

definition failingAt :: "request \<Rightarrow> string \<Rightarrow> transport" where
  "failingAt q errName =
     (\<lambda>r. if r = q then Inl (FetchError errName) else Inr \<lparr>status = 200, text_of = []\<rparr>)"












section \<open>Requests that complete\<close>

text \<open>
  Two notions for the properties of the routines. A request completes when the
  transport answers it. A part of a routine is orderly with respect to a request
  \<open>final\<close> when it does not send \<open>final\<close>, every request it has sent completed unless
  it ends with an error of the transport, and in that case a request it has sent
  did not complete.
\<close>

definition completes :: "transport \<Rightarrow> request \<Rightarrow> bool" where
  "completes net q = (case net q of Inl e \<Rightarrow> False | Inr r \<Rightarrow> True)"

definition transportError :: "error + 'a \<Rightarrow> bool" where
  "transportError r =
     (case r of
        Inr x \<Rightarrow> False
      | Inl e \<Rightarrow> (case e of Thrown f \<Rightarrow> True | JsTypeError \<Rightarrow> False | NeverReturns \<Rightarrow> False))"

definition orderly :: "transport \<Rightarrow> request \<Rightarrow> 'a io \<Rightarrow> bool" where
  "orderly net final m =
     (final \<notin> set (snd m)
      \<and> (if transportError (fst m) then list_ex (\<lambda>q. \<not> completes net q) (snd m)
         else list_all (completes net) (snd m)))"

text \<open>
  A run of a routine is undisturbed when every request it has sent, the logout
  apart, completed, and it did not end with a TypeError or in a loop that does not
  end. It throws when it ends with an error.
\<close>

definition undisturbed :: "transport \<Rightarrow> string \<Rightarrow> 'a io \<Rightarrow> bool" where
  "undisturbed net server run =
     (list_all (\<lambda>q. q = logoutRequest server \<or> completes net q) (snd run)
      \<and> fst run \<noteq> Inl JsTypeError \<and> fst run \<noteq> Inl NeverReturns)"

definition throws :: "'a io \<Rightarrow> bool" where
  "throws run = (case fst run of Inl e \<Rightarrow> True | Inr x \<Rightarrow> False)"


section \<open>Where a value starts\<close>

text \<open>
  A notion for the properties of extractAttribute. A value starts at a text when one
  of the five shapes can begin there: a word character (a boolean or a number,
  whose group is optional), or a single quote, an opening bracket or an opening
  brace with its closing character somewhere after it.
\<close>

definition opens :: "char \<Rightarrow> char \<Rightarrow> string \<Rightarrow> bool" where
  "opens opening closing s = (case s of [] \<Rightarrow> False | c # r \<Rightarrow> c = opening \<and> closing \<in> set r)"

definition valueStart :: "string \<Rightarrow> bool" where
  "valueStart s =
     (startsWord s \<or> opens (CHR 0x27) (CHR 0x27) s \<or> opens CHR ''['' CHR '']'' s
      \<or> opens CHR ''{'' CHR ''}'' s)"


section \<open>Properties of the extractors\<close>

lemma searchFrom_skip:
  "(\<And>i. i < length pre \<Longrightarrow> m (drop i (pre @ s)) = None) \<Longrightarrow>
   searchFrom m (pre @ s) = searchFrom m s"
proof (induction pre)
  case Nil
  then show ?case by simp
next
  case (Cons c pre)
  have here: "m ((c # pre) @ s) = None"
    using Cons.prems [of 0] by simp
  have later: "\<And>i. i < length pre \<Longrightarrow> m (drop i (pre @ s)) = None"
    using Cons.prems [of "Suc _"] by simp
  from here Cons.IH [OF later] show ?case by simp
qed

lemma searchFrom_here: "m s = Some r \<Longrightarrow> searchFrom m s = Some r"
  by (cases s) simp_all

lemma dropWhile_spaces_then:
  "\<forall>c\<in>set ws. isSpace c \<Longrightarrow> \<not> isSpace d \<Longrightarrow> dropWhile isSpace (ws @ d # r) = d # r"
  by (induction ws) simp_all

lemma varAt_found:
  assumes "\<forall>c\<in>set ws. isSpace c" and "CHR '';'' \<notin> set val"
  shows "varAt name (name @ ws @ ''='' @ val @ '';'' @ rest) = Some val"
proof -
  have eq: "\<not> isSpace CHR ''=''"
    by (simp add: isSpace_def)
  have "dropWhile isSpace (ws @ CHR ''='' # val @ CHR '';'' # rest) = CHR ''='' # val @ CHR '';'' # rest"
    using assms(1) eq by (rule dropWhile_spaces_then)
  moreover have "takeWhile (\<lambda>c. c \<noteq> CHR '';'') (val @ CHR '';'' # rest) = val"
    using assms(2) by (induction val) auto
  ultimately show ?thesis
    by (simp add: varAt_def untilSemicolon_def)
qed

lemma varAt_SomeD:
  assumes "varAt name s = Some v"
  shows "\<exists>w. (\<forall>c\<in>set w. isSpace c) \<and> prefix (name @ w @ ''='') s"
proof -
  from assms obtain r where p: "prefix name s"
    and d: "dropWhile isSpace (drop (length name) s) = CHR ''='' # r"
    by (auto simp: varAt_def split: if_splits list.splits)
  let ?t = "drop (length name) s"
  have "?t = takeWhile isSpace ?t @ dropWhile isSpace ?t"
    by simp
  with d have t: "?t = takeWhile isSpace ?t @ CHR ''='' # r"
    by simp
  from p have "s = name @ ?t"
    by (auto simp: prefix_def)
  with t have "s = (name @ takeWhile isSpace ?t @ ''='') @ r"
    by simp
  then have "prefix (name @ takeWhile isSpace ?t @ ''='') s"
    by (metis prefixI)
  moreover have "\<forall>c\<in>set (takeWhile isSpace ?t). isSpace c"
    by (auto dest: set_takeWhileD)
  ultimately show ?thesis by blast
qed

text \<open>
  C10. extractVariable matches the variable name as a bare substring, with no word
  boundary before it: where the text is \<open>pre\<close>, the name, white space, \<open>=\<close>, a value
  free of semicolons, a semicolon and a rest, and the name followed by white space
  and \<open>=\<close> does not occur at an earlier position, the result is the trimmed value,
  whatever precedes the name. So on \<open>var max_port_num = 8;\<close> the name \<open>port_num\<close>
  yields \<open>8\<close>, the value of the longer variable.
\<close>

theorem extractVariable_bare_substring:
  assumes "list_all isWord name"
    and "\<forall>c\<in>set ws. isSpace c"
    and "CHR '';'' \<notin> set val"
    and "\<forall>i<length pre. \<forall>w. (\<forall>c\<in>set w. isSpace c) \<longrightarrow>
           \<not> prefix (name @ w @ ''='') (drop i (pre @ name @ ws @ ''='' @ val @ '';'' @ rest))"
  shows "extractVariable (pre @ name @ ws @ ''='' @ val @ '';'' @ rest) name = Some (trim val)
       \<and> extractVariable ''var max_port_num = 8;'' ''port_num'' = Some ''8''"
proof -
  let ?s = "name @ ws @ ''='' @ val @ '';'' @ rest"
  have none: "\<And>i. i < length pre \<Longrightarrow> varAt name (drop i (pre @ ?s)) = None"
  proof (rule ccontr)
    fix i assume i: "i < length pre" and "varAt name (drop i (pre @ ?s)) \<noteq> None"
    then obtain v where "varAt name (drop i (pre @ ?s)) = Some v" by auto
    from varAt_SomeD [OF this] assms(4) i show False by blast
  qed
  have "searchFrom (varAt name) (pre @ ?s) = searchFrom (varAt name) ?s"
    using none by (rule searchFrom_skip)
  also have "\<dots> = Some val"
    using varAt_found [OF assms(2,3)] by (rule searchFrom_here)
  finally have general: "extractVariable (pre @ ?s) name = Some (trim val)"
    by (simp add: extractVariable_def)
  have "extractVariable ''var max_port_num = 8;'' ''port_num'' = Some ''8''"
    by (simp add: extractVariable_def varAt_def untilSemicolon_def trim_def isSpace_def)
  with general show ?thesis by blast
qed

theorem extractVariable_bare_substring_witness:
  "extractVariable (''var max_'' @ ''port_num'' @ '' '' @ ''='' @ '' 8'' @ '';'' @ ''var tip;'')
     ''port_num'' = Some ''8''"
proof -
  have h1: "list_all isWord ''port_num''"
    by (simp add: isWord_def)
  have h2: "\<forall>c\<in>set '' ''. isSpace c"
    by (simp add: isSpace_def)
  have h3: "CHR '';'' \<notin> set '' 8''"
    by simp
  have h4: "\<forall>i<length ''var max_''. \<forall>w. (\<forall>c\<in>set w. isSpace c) \<longrightarrow>
           \<not> prefix (''port_num'' @ w @ ''='')
               (drop i (''var max_'' @ ''port_num'' @ '' '' @ ''='' @ '' 8'' @ '';'' @ ''var tip;''))"
  proof (intro allI impI)
    fix i :: nat and w :: string
    assume "i < length ''var max_''"
    then have "i < 8" by simp
    then have "i = 0 \<or> i = 1 \<or> i = 2 \<or> i = 3 \<or> i = 4 \<or> i = 5 \<or> i = 6 \<or> i = 7"
      by arith
    then show "\<not> prefix (''port_num'' @ w @ ''='')
               (drop i (''var max_'' @ ''port_num'' @ '' '' @ ''='' @ '' 8'' @ '';'' @ ''var tip;''))"
      by (elim disjE) simp_all
  qed
  have "trim '' 8'' = ''8''"
    by (simp add: trim_def isSpace_def)
  with extractVariable_bare_substring [OF h1 h2 h3 h4] show ?thesis
    by simp
qed

section \<open>Properties of the routines\<close>

lemma await_Inl: "await (Inl e, sent) rest = (Inl e, sent)"
  by (simp add: await_def)

lemma await_Inr: "await (Inr x, sent) rest = (fst (rest x), sent @ snd (rest x))"
  by (simp add: await_def split: prod.splits)

lemmas io_simps = await_Inl await_Inr fetch_def ret_def

lemma sent_logout: "snd (priv_logout net server) = [logoutRequest server]"
  by (simp add: priv_logout_def io_simps split: sum.splits)

lemma sent_after_login:
  "snd (await (priv_login net server username password) rest) =
     loginRequest server username password None
     # (case net (loginRequest server username password None) of
          Inl e \<Rightarrow> [] | Inr r \<Rightarrow> snd (rest ()))"
  by (simp add: priv_login_def io_simps split: sum.splits)

lemma sent_one_then_logout:
  "snd (await (await (fetch net q) (\<lambda>_. ret ())) (\<lambda>_. priv_logout net server)) =
     q # (case net q of Inl e \<Rightarrow> [] | Inr r \<Rightarrow> [logoutRequest server])"
  by (simp add: io_simps sent_logout split: sum.splits)

lemma sent_none_then_logout:
  "snd (await (ret ()) (\<lambda>_. priv_logout net server)) = [logoutRequest server]"
  by (simp add: io_simps sent_logout)

lemma parseInt_small: "list_all (\<lambda>n. parseInt (intToString n) None = Num n) [1..33]"
  by code_simp

lemma parseInt_id:
  assumes "1 \<le> n" and "n \<le> 33"
  shows "parseInt (intToString n) None = Num n"
proof -
  from assms have "n \<in> set [1..33]" by simp
  with parseInt_small show ?thesis
    unfolding list_all_iff by blast
qed

lemma upto_1_8: "[1..8] = [1, 2, 3, 4, 5, 6, 7, (8::int)]"
  by code_simp

lemma small_digits:
  "intToString 1 = ''1''" "intToString 2 = ''2''" "intToString 3 = ''3''" "intToString 4 = ''4''"
  "intToString 5 = ''5''" "intToString 6 = ''6''" "intToString 7 = ''7''" "intToString 8 = ''8''"
  by code_simp+

lemma modify_url:
  "vlanModifyRequest server (Num n) (JString s) (JArray ms) =
     GET (''http://'' @ server @ VLAN_PATH @ ''?vid='' @ intToString n @ ''&vname='' @ s
          @ concat (map (\<lambda>p. ''&selType_'' @ intToString p @ ''=''
                              @ (if JNumber p \<in> set ms then ''1'' else ''2'')) [1..8])
          @ ''&qvlan_add=Add%2FModify'')"
  unfolding upto_1_8
  by (simp add: vlanModifyRequest_def small_digits selType_def arrayIncludes_def elements_def
      numToString_def)

lemma SetVLAN_rejected:
  assumes "\<not> between 2 (parseInt (toString vlan) None) 32"
  shows "snd (SetVLAN net server username password vlan name members) =
           loginRequest server username password None
           # (case net (loginRequest server username password None) of
                Inl e \<Rightarrow> [] | Inr r \<Rightarrow> [logoutRequest server])"
  using assms
  by (simp add: SetVLAN_def sent_after_login Let_def sent_none_then_logout split: sum.splits)

text \<open>
  C3 fails on the code. The condition of the rename is
  \<open>(name && name !== '' && name.length < 32) || regex.test(name)\<close>: a name of forty
  letters passes by the expression alone, and a short name with a space passes by
  its length alone. Both are sent to the switch.
\<close>

theorem SetSwitch_rename_sent_for_invalid_names:
  "SetSwitch (answering []) ''sw'' ''admin'' ''admin''
       (JString ''aaaaaaaaaaaaaaaaaaaaaaaaaaaaaaaaaaaaaaaa'') JUndefined
     = (Inr (), [loginRequest ''sw'' ''admin'' ''admin'' None,
          GET ''http://sw:80/system_name_set.cgi?sysName=aaaaaaaaaaaaaaaaaaaaaaaaaaaaaaaaaaaaaaaa'',
          logoutRequest ''sw''])
   \<and> SetSwitch (answering []) ''sw'' ''admin'' ''admin'' (JString ''my switch'') JUndefined
     = (Inr (), [loginRequest ''sw'' ''admin'' ''admin'' None,
          GET ''http://sw:80/system_name_set.cgi?sysName=my switch'',
          logoutRequest ''sw''])"
  by code_simp

text \<open>
  C4 fails on the code. The condition of the mode request is
  \<open>vlan && (vlan === 0 || vlan === 1)\<close>, and the number 0 is falsy: with the flag 0
  only the rename is sent, with the flag 1 the mode request follows it.
\<close>

theorem SetSwitch_vlan_zero_not_sent:
  "SetSwitch (answering []) ''sw'' ''admin'' ''admin'' (JString ''Switch-007'') (JNumber 0)
     = (Inr (), [loginRequest ''sw'' ''admin'' ''admin'' None,
          GET ''http://sw:80/system_name_set.cgi?sysName=Switch-007'',
          logoutRequest ''sw''])
   \<and> SetSwitch (answering []) ''sw'' ''admin'' ''admin'' (JString ''Switch-007'') (JNumber 1)
     = (Inr (), [loginRequest ''sw'' ''admin'' ''admin'' None,
          GET ''http://sw:80/system_name_set.cgi?sysName=Switch-007'',
          GET ''http://sw:80/qvlanSet.cgi?qvlan_en=1&qvlan_mode=Apply'',
          logoutRequest ''sw''])"
  by code_simp

text \<open>
  C5 fails on the code. \<open>SPEED2VALUE\<close> maps the empty speed, the unset placeholder,
  to 7, which is truthy: port 4 with state 0 and the empty speed is configured with
  speed 7. Port 4 with \<open>100MH\<close> sends speed 4; port 9 and the speed \<open>down\<close> send
  nothing.
\<close>

theorem SetPort_unset_speed_sent:
  "SetPort (answering []) ''sw'' ''admin'' ''admin'' (JNumber 4) (JNumber 0) (JString [])
     = (Inr (), [loginRequest ''sw'' ''admin'' ''admin'' None,
          GET ''http://sw:80/port_setting.cgi?portid=4&state=0&speed=7&flowcontrol=0&apply=Apply'',
          logoutRequest ''sw''])
   \<and> SetPort (answering []) ''sw'' ''admin'' ''admin'' (JNumber 4) (JNumber 0) (JString ''100MH'')
     = (Inr (), [loginRequest ''sw'' ''admin'' ''admin'' None,
          GET ''http://sw:80/port_setting.cgi?portid=4&state=0&speed=4&flowcontrol=0&apply=Apply'',
          logoutRequest ''sw''])
   \<and> SetPort (answering []) ''sw'' ''admin'' ''admin'' (JNumber 9) (JNumber 0) (JString ''100MH'')
     = (Inr (), [loginRequest ''sw'' ''admin'' ''admin'' None, logoutRequest ''sw''])
   \<and> SetPort (answering []) ''sw'' ''admin'' ''admin'' (JNumber 4) (JNumber 0) (JString ''down'')
     = (Inr (), [loginRequest ''sw'' ''admin'' ''admin'' None, logoutRequest ''sw''])"
  by code_simp

text \<open>
  C7. SetVLAN with an id from 2 to 32 and a non-empty name of the characters
  \<open>[a-zA-Z0-9-_]\<close>, once the login has completed: with no members it sends exactly
  one request, the delete of the id; with members it sends exactly one request, the
  add-or-modify with the id, the name and \<open>selType_1\<close> to \<open>selType_8\<close>, each 1 when
  the port is among the members and 2 when not. The logout follows when that request
  completes. The ids 1 and 33 are rejected whatever the name and the members: nothing
  is sent between login and logout.
\<close>

theorem SetVLAN_requests:
  assumes "2 \<le> n" and "n \<le> 32" and "s \<noteq> []" and "list_all nameChar s"
    and "net (loginRequest server username password None) = Inr r0"
  shows "snd (SetVLAN net server username password (JNumber n) (JString s) (JArray ms)) =
           (let q = (if ms = []
                     then GET (''http://'' @ server @ VLAN_PATH @ ''?selVlans='' @ intToString n
                               @ ''&qvlan_del=Delete'')
                     else GET (''http://'' @ server @ VLAN_PATH @ ''?vid='' @ intToString n
                               @ ''&vname='' @ s
                               @ concat (map (\<lambda>p. ''&selType_'' @ intToString p @ ''=''
                                                   @ (if JNumber p \<in> set ms then ''1'' else ''2''))
                                           [1..8])
                               @ ''&qvlan_add=Add%2FModify''))
            in [loginRequest server username password None, q]
               @ (case net q of Inl e \<Rightarrow> [] | Inr r \<Rightarrow> [logoutRequest server]))
         \<and> snd (SetVLAN net server username password (JNumber 1) name members) =
             [loginRequest server username password None, logoutRequest server]
         \<and> snd (SetVLAN net server username password (JNumber 33) name members) =
             [loginRequest server username password None, logoutRequest server]"
proof -
  have p: "parseInt (intToString n) None = Num n"
    using assms(1,2) by (simp add: parseInt_id)
  have b: "between 2 (Num n) 32"
    using assms(1,2) by (simp add: between_def)
  have v: "truthy (JString s)" "looseNotEmpty (JString s)" "regexTest (JString s)"
    using assms(3,4) by (simp_all add: looseNotEmpty_def regexTest_def)
  have a: "isArray (JArray ms)" "elements (JArray ms) = ms"
    by (simp_all add: isArray_def elements_def)
  have d: "vlanDeleteRequest server (Num n) =
        GET (''http://'' @ server @ VLAN_PATH @ ''?selVlans='' @ intToString n @ ''&qvlan_del=Delete'')"
    by (simp add: vlanDeleteRequest_def numToString_def)
  have accepted: "snd (SetVLAN net server username password (JNumber n) (JString s) (JArray ms)) =
           (let q = (if ms = []
                     then GET (''http://'' @ server @ VLAN_PATH @ ''?selVlans='' @ intToString n
                               @ ''&qvlan_del=Delete'')
                     else GET (''http://'' @ server @ VLAN_PATH @ ''?vid='' @ intToString n
                               @ ''&vname='' @ s
                               @ concat (map (\<lambda>p. ''&selType_'' @ intToString p @ ''=''
                                                   @ (if JNumber p \<in> set ms then ''1'' else ''2''))
                                           [1..8])
                               @ ''&qvlan_add=Add%2FModify''))
            in [loginRequest server username password None, q]
               @ (case net q of Inl e \<Rightarrow> [] | Inr r \<Rightarrow> [logoutRequest server]))"
  proof (cases "ms = []")
    case True
    then show ?thesis
      using b v a
      by (simp add: SetVLAN_def sent_after_login assms(5) p Let_def sent_one_then_logout d)
  next
    case False
    then show ?thesis
      using b v a
      by (simp add: SetVLAN_def sent_after_login assms(5) p Let_def sent_one_then_logout
          modify_url)
  qed
  have "\<not> between 2 (parseInt (toString (JNumber 1)) None) 32"
    by (simp add: parseInt_id between_def)
  then have one: "snd (SetVLAN net server username password (JNumber 1) name members) =
             [loginRequest server username password None, logoutRequest server]"
    by (simp add: SetVLAN_rejected assms(5))
  have "\<not> between 2 (parseInt (toString (JNumber 33)) None) 32"
    by (simp add: parseInt_id between_def)
  then have last: "snd (SetVLAN net server username password (JNumber 33) name members) =
             [loginRequest server username password None, logoutRequest server]"
    by (simp add: SetVLAN_rejected assms(5))
  from accepted one last show ?thesis by blast
qed

theorem SetVLAN_requests_witness:
  "snd (SetVLAN (answering []) ''sw'' ''admin'' ''admin'' (JNumber 5) (JString ''ops-1'')
          (JArray [JNumber 2, JNumber 4])) =
     [loginRequest ''sw'' ''admin'' ''admin'' None,
      GET ''http://sw:80/qvlanSet.cgi?vid=5&vname=ops-1&selType_1=2&selType_2=1&selType_3=2&selType_4=1&selType_5=2&selType_6=2&selType_7=2&selType_8=2&qvlan_add=Add%2FModify'',
      logoutRequest ''sw'']
   \<and> snd (SetVLAN (answering []) ''sw'' ''admin'' ''admin'' (JNumber 5) (JString ''ops-1'')
          (JArray [])) =
     [loginRequest ''sw'' ''admin'' ''admin'' None,
      GET ''http://sw:80/qvlanSet.cgi?selVlans=5&qvlan_del=Delete'',
      logoutRequest ''sw'']"
proof -
  have h1: "2 \<le> (5::int)" and h2: "(5::int) \<le> 32" by simp_all
  have h3: "''ops-1'' \<noteq> []" by simp
  have h4: "list_all nameChar ''ops-1''" by (simp add: nameChar_def)
  have h5: "answering [] (loginRequest ''sw'' ''admin'' ''admin'' None)
              = Inr \<lparr>status = 200, text_of = []\<rparr>"
    by (simp add: answering_def)
  note t = SetVLAN_requests [where net = "answering []" and server = "''sw''"
      and username = "''admin''" and password = "''admin''", OF h1 h2 h3 h4 h5]
  from t [where ms = "[JNumber 2, JNumber 4]"] t [where ms = "[]"] show ?thesis
    by (simp add: upto_1_8 small_digits VLAN_PATH_def answering_def)
qed

lemma logout_differs:
  "logoutRequest server \<noteq> switchInfoRequest server"
  "logoutRequest server \<noteq> loginRequest server username password limit"
  by (simp_all add: switchInfoRequest_def logoutRequest_def loginRequest_def LOGOUT_PATH_def
      SWITCH_INFO_PATH_def)

text \<open>
  C8, as the claim states it, fails: the logout is the last statement inside the
  \<open>try\<close> block, so an error of the request before it skips the logout. Here the
  login completes and the read of the switch information is refused: the process
  ends and no logout has been sent.
\<close>

theorem Diagnosis_no_logout_counterexample:
  "Diagnosis (failingAt (switchInfoRequest ''sw'') ''FetchError'') ''sw'' ''admin'' ''admin''
     = (ProcessExit 1,
        [loginRequest ''sw'' ''admin'' ''admin'' (Some 1000), switchInfoRequest ''sw''])
   \<and> logoutRequest ''sw'' \<notin> set (snd
        (Diagnosis (failingAt (switchInfoRequest ''sw'') ''FetchError'') ''sw'' ''admin'' ''admin''))"
  by code_simp

text \<open>
  C8, amended. Diagnosis returns one of the three states or ends the process with
  exit code 1. It returns \<open>not accessible\<close> exactly when the login POST is aborted (its
  time limit of one second); it returns \<open>authorized\<close> exactly when the login POST and
  the GET of the switch information complete, the status of the latter is 200, and
  the logout does not throw an error other than an abort; the process ends exactly
  when a request that was sent throws an error other than an AbortError. The logout
  is attempted exactly when the login POST and the GET of the switch information both
  complete.
\<close>

theorem Diagnosis_states:
  "fst (Diagnosis net server username password)
     \<in> {Returned ''not accessible'', Returned ''not authorized'', Returned ''authorized'',
        ProcessExit 1}
   \<and> (fst (Diagnosis net server username password) = Returned ''not accessible'' \<longleftrightarrow>
        (\<exists>e. net (loginRequest server username password (Some 1000)) = Inl e
             \<and> errorName e = ''AbortError''))
   \<and> (fst (Diagnosis net server username password) = Returned ''authorized'' \<longleftrightarrow>
        (\<exists>r1 r2. net (loginRequest server username password (Some 1000)) = Inr r1
               \<and> net (switchInfoRequest server) = Inr r2 \<and> status r2 = 200
               \<and> (\<forall>e. net (logoutRequest server) = Inl e \<longrightarrow> errorName e = ''AbortError'')))
   \<and> (fst (Diagnosis net server username password) = ProcessExit 1 \<longleftrightarrow>
        (\<exists>q e. q \<in> set (snd (Diagnosis net server username password)) \<and> net q = Inl e
             \<and> errorName e \<noteq> ''AbortError''))
   \<and> (logoutRequest server \<in> set (snd (Diagnosis net server username password)) \<longleftrightarrow>
        (\<exists>r1 r2. net (loginRequest server username password (Some 1000)) = Inr r1
               \<and> net (switchInfoRequest server) = Inr r2))"
  by (auto simp: Diagnosis_def catchDiagnosis_def Let_def logout_differs split: sum.splits)

theorem Diagnosis_states_witness:
  "fst (Diagnosis (answering []) ''sw'' ''admin'' ''admin'') = Returned ''authorized''
   \<and> logoutRequest ''sw'' \<in> set (snd (Diagnosis (answering []) ''sw'' ''admin'' ''admin''))"
proof -
  have "\<exists>r1 r2. answering [] (loginRequest ''sw'' ''admin'' ''admin'' (Some 1000)) = Inr r1
          \<and> answering [] (switchInfoRequest ''sw'') = Inr r2 \<and> status r2 = 200
          \<and> (\<forall>e. answering [] (logoutRequest ''sw'') = Inl e \<longrightarrow> errorName e = ''AbortError'')"
    by (simp add: answering_def)
  moreover have "\<exists>r1 r2. answering [] (loginRequest ''sw'' ''admin'' ''admin'' (Some 1000)) = Inr r1
          \<and> answering [] (switchInfoRequest ''sw'') = Inr r2"
    by (simp add: answering_def)
  ultimately show ?thesis
    using Diagnosis_states [of "answering []" "''sw''" "''admin''" "''admin''"] by blast
qed

section \<open>Properties of the membership bit mask\<close>

lemma upt_16: "[0..<16] = [0, 1, 2, 3, 4, 5, 6, 7, 8, 9, 10, 11, 12, 13, 14, 15]"
  by code_simp

lemma isBitSet_bit: "isBitSet x i \<longleftrightarrow> bit (toInt32 x) i"
  by (simp add: isBitSet_def bit_iff_and_push_bit_not_eq_0)

lemma isBitSet_Num: "isBitSet (Num v) i \<longleftrightarrow> i < 32 \<and> bit v i"
  by (simp add: isBitSet_bit toInt32_def bit_word_of_int_iff)

lemma set_maskPorts:
  "set (maskPorts x) = {p. 1 \<le> p \<and> p \<le> 16 \<and> bit (toInt32 x) (nat (p - 1))}"
proof -
  have "set (maskPorts x) = (\<lambda>i. int i + 1) ` {i. i < 16 \<and> bit (toInt32 x) i}"
    by (auto simp: maskPorts_def isBitSet_bit)
  also have "\<dots> = {p. 1 \<le> p \<and> p \<le> 16 \<and> bit (toInt32 x) (nat (p - 1))}"
  proof (intro set_eqI iffI)
    fix p assume "p \<in> (\<lambda>i. int i + 1) ` {i. i < 16 \<and> bit (toInt32 x) i}"
    then obtain i where "i < 16" "bit (toInt32 x) i" "p = int i + 1" by auto
    then show "p \<in> {p. 1 \<le> p \<and> p \<le> 16 \<and> bit (toInt32 x) (nat (p - 1))}" by simp
  next
    fix p assume "p \<in> {p. 1 \<le> p \<and> p \<le> 16 \<and> bit (toInt32 x) (nat (p - 1))}"
    then have "nat (p - 1) < 16" "bit (toInt32 x) (nat (p - 1))" "p = int (nat (p - 1)) + 1"
      by auto
    then show "p \<in> (\<lambda>i. int i + 1) ` {i. i < 16 \<and> bit (toInt32 x) i}" by blast
  qed
  finally show ?thesis .
qed

lemma byte_bits:
  assumes "0 \<le> v" and "v < 256"
  shows "bit (toInt32 (Num v)) i \<longleftrightarrow> i < 8 \<and> bit v i"
proof -
  have "take_bit 8 v = v"
    using assms by (simp add: take_bit_int_eq_self)
  then have "bit v i \<longleftrightarrow> i < 8 \<and> bit v i"
    by (metis bit_take_bit_iff)
  then show ?thesis
    by (auto simp: toInt32_def bit_word_of_int_iff)
qed

lemma low_ports:
  assumes "\<And>i. bit (w::32 word) i \<longleftrightarrow> i < 8 \<and> bit (v::int) i"
  shows "{p. 1 \<le> p \<and> p \<le> 16 \<and> bit w (nat (p - 1))} =
         {p::int. 1 \<le> p \<and> p \<le> 8 \<and> bit v (nat (p - 1))}"
proof (intro set_eqI iffI)
  fix p :: int
  assume "p \<in> {p. 1 \<le> p \<and> p \<le> 16 \<and> bit w (nat (p - 1))}"
  then have a: "1 \<le> p" "bit w (nat (p - 1))" by simp_all
  from a(2) have "nat (p - 1) < 8" "bit v (nat (p - 1))" by (simp_all only: assms)
  with a(1) show "p \<in> {p. 1 \<le> p \<and> p \<le> 8 \<and> bit v (nat (p - 1))}" by simp
next
  fix p :: int
  assume "p \<in> {p. 1 \<le> p \<and> p \<le> 8 \<and> bit v (nat (p - 1))}"
  then have a: "1 \<le> p" "p \<le> 8" "bit v (nat (p - 1))" by simp_all
  then have "nat (p - 1) < 8" by simp
  with a(3) have "bit w (nat (p - 1))" by (simp only: assms)
  with a show "p \<in> {p. 1 \<le> p \<and> p \<le> 16 \<and> bit w (nat (p - 1))}" by simp
qed

lemma parse_masks:
  "parseInt ''FF'' (Some 16) = Num 255" "parseInt ''AA'' (Some 16) = Num 170"
  "parseInt ''00'' (Some 16) = Num 0" "parseInt ''100'' (Some 16) = Num 256"
  by code_simp+

text \<open>
  C6, as the claim states it, fails: the loop runs over the sixteen bits, and a set
  bit 8 puts port 9 into the set. The mask \<open>100\<close> decodes to port 9 alone.
\<close>

theorem decodeMembers_port9_counterexample:
  "decodeMembers (JString ''100'') = [9]"
  unfolding decodeMembers_def toString.simps parse_masks maskPorts_def upt_16
  by (simp add: isBitSet_Num)

text \<open>
  C6, amended. For every text read as a membership mask, the decoded set holds
  exactly the port numbers \<open>p\<close> from 1 to 16 whose bit \<open>p - 1\<close> is set in the parsed
  value (as 32 bit integer): the bits 8 to 15 contribute the ports 9 to 16. For a
  value below \<open>0x100\<close> these are exactly the ports from 1 to 8 whose bit is set. \<open>FF\<close>
  decodes to the ports 1 to 8, \<open>AA\<close> to 2, 4, 6, 8 and \<open>00\<close> to no port.
\<close>

theorem decodeMembers_ports:
  "set (decodeMembers (JString s)) =
     {p. 1 \<le> p \<and> p \<le> 16 \<and> bit (toInt32 (parseInt s (Some 16))) (nat (p - 1))}
   \<and> (parseInt s (Some 16) = Num v \<and> 0 \<le> v \<and> v < 256 \<longrightarrow>
        set (decodeMembers (JString s)) = {p. 1 \<le> p \<and> p \<le> 8 \<and> bit v (nat (p - 1))})
   \<and> decodeMembers (JString ''FF'') = [1, 2, 3, 4, 5, 6, 7, 8]
   \<and> decodeMembers (JString ''AA'') = [2, 4, 6, 8]
   \<and> decodeMembers (JString ''00'') = []"
proof -
  have general: "set (decodeMembers (JString s)) =
     {p. 1 \<le> p \<and> p \<le> 16 \<and> bit (toInt32 (parseInt s (Some 16))) (nat (p - 1))}"
    by (simp add: decodeMembers_def set_maskPorts)
  have low: "parseInt s (Some 16) = Num v \<and> 0 \<le> v \<and> v < 256 \<longrightarrow>
        set (decodeMembers (JString s)) = {p. 1 \<le> p \<and> p \<le> 8 \<and> bit v (nat (p - 1))}"
  proof
    assume a: "parseInt s (Some 16) = Num v \<and> 0 \<le> v \<and> v < 256"
    then have "\<And>i. bit (toInt32 (parseInt s (Some 16))) i \<longleftrightarrow> i < 8 \<and> bit v i"
      by (simp add: byte_bits)
    then show "set (decodeMembers (JString s)) = {p. 1 \<le> p \<and> p \<le> 8 \<and> bit v (nat (p - 1))}"
      unfolding general by (rule low_ports)
  qed
  have ff: "decodeMembers (JString ''FF'') = [1, 2, 3, 4, 5, 6, 7, 8]"
    unfolding decodeMembers_def toString.simps parse_masks maskPorts_def upt_16
    by (simp add: isBitSet_Num)
  have aa: "decodeMembers (JString ''AA'') = [2, 4, 6, 8]"
    unfolding decodeMembers_def toString.simps parse_masks maskPorts_def upt_16
    by (simp add: isBitSet_Num)
  have zero: "decodeMembers (JString ''00'') = []"
    unfolding decodeMembers_def toString.simps parse_masks maskPorts_def upt_16
    by (simp add: isBitSet_Num)
  from general low ff aa zero show ?thesis by blast
qed

theorem decodeMembers_ports_witness:
  "set (decodeMembers (JString ''AA'')) = {p. 1 \<le> p \<and> p \<le> 8 \<and> bit (170::int) (nat (p - 1))}"
proof -
  have "parseInt ''AA'' (Some 16) = Num 170 \<and> (0::int) \<le> 170 \<and> (170::int) < 256"
    by (simp add: parse_masks)
  with decodeMembers_ports [of "''AA''" 170] show ?thesis by blast
qed

section \<open>Properties of extractAttribute\<close>

lemma searchFrom_none:
  "(\<And>i. i \<le> length s \<Longrightarrow> m (drop i s) = None) \<Longrightarrow> searchFrom m s = None"
proof (induction s)
  case Nil
  then show ?case by simp
next
  case (Cons c s)
  have here: "m (c # s) = None"
    using Cons.prems [of 0] by simp
  have later: "\<And>i. i \<le> length s \<Longrightarrow> m (drop i s) = None"
    using Cons.prems [of "Suc _"] by simp
  from here Cons.IH [OF later] show ?case by simp
qed

lemma attrAt_no_prefix: "\<not> prefix a s \<Longrightarrow> attrAt a s = None"
  by (simp add: attrAt_def)

lemma attrAt_value:
  assumes "\<forall>c\<in>set ws1. isSpace c" and "\<forall>c\<in>set ws2. isSpace c" and "\<not> isSpace d"
  shows "attrAt a (a @ ws1 @ '':'' @ ws2 @ d # r) = valueShapes (d # r)"
proof -
  have colon: "\<not> isSpace CHR '':''"
    by (simp add: isSpace_def)
  have 1: "dropWhile isSpace (ws1 @ CHR '':'' # ws2 @ d # r) = CHR '':'' # ws2 @ d # r"
    using assms(1) colon by (rule dropWhile_spaces_then)
  have 2: "dropWhile isSpace (ws2 @ d # r) = d # r"
    using assms(2,3) by (rule dropWhile_spaces_then)
  show ?thesis
    by (simp add: attrAt_def 1 2)
qed

lemma delimited_found:
  "closing \<notin> set g \<Longrightarrow> delimited opening closing (opening # g @ closing # rest) = Some g"
  by (induction g) (auto simp: delimited_def)

lemma delimited_other: "c \<noteq> opening \<Longrightarrow> delimited opening closing (c # r) = None"
  by (simp add: delimited_def)

lemma shape_string:
  assumes "CHR 0x27 \<notin> set g"
  shows "valueShapes (CHR 0x27 # g @ CHR 0x27 # rest) = Some [Some g, None, None, None, None]"
  using assms by (simp add: valueShapes_def aString_def delimited_found)

lemma shape_list:
  assumes "CHR '']'' \<notin> set g"
  shows "valueShapes (CHR ''['' # g @ CHR '']'' # rest) = Some [None, None, None, Some g, None]"
proof -
  have "\<not> startsWord (CHR ''['' # g @ CHR '']'' # rest)"
    by (simp add: startsWord_def isWord_def)
  then show ?thesis
    using assms
    by (simp add: valueShapes_def aString_def aBoolean_def aNumber_def aList_def boundary_def
        delimited_found delimited_other)
qed

lemma shape_dict:
  assumes "CHR ''}'' \<notin> set g"
  shows "valueShapes (CHR ''{'' # g @ CHR ''}'' # rest) = Some [None, None, None, None, Some g]"
proof -
  have "\<not> startsWord (CHR ''{'' # g @ CHR ''}'' # rest)"
    by (simp add: startsWord_def isWord_def)
  then show ?thesis
    using assms
    by (simp add: valueShapes_def aString_def aBoolean_def aNumber_def aList_def aDict_def
        boundary_def delimited_found delimited_other)
qed

lemma shape_true:
  assumes "\<not> startsWord rest"
  shows "valueShapes (''true'' @ rest) = Some [None, Some ''true'', None, None, None]"
proof -
  have "startsWord (''true'' @ rest)"
    by (simp add: startsWord_def isWord_def)
  then show ?thesis
    using assms
    by (simp add: valueShapes_def aString_def aBoolean_def boundary_def delimited_other)
qed

lemma shape_false:
  assumes "\<not> startsWord rest"
  shows "valueShapes (''false'' @ rest) = Some [None, Some ''false'', None, None, None]"
proof -
  have "startsWord (''false'' @ rest)"
    by (simp add: startsWord_def isWord_def)
  then show ?thesis
    using assms
    by (simp add: valueShapes_def aString_def aBoolean_def boundary_def delimited_other)
qed

lemma isDigit_isWord: "isDigit c \<Longrightarrow> isWord c"
  by (auto simp: isDigit_def isWord_def)

lemma digit_chars:
  assumes "isDigit c"
  shows "c \<noteq> CHR 0x27" "c \<noteq> CHR 0x22" "c \<noteq> CHR ''t''" "c \<noteq> CHR ''f''" "\<not> isSpace c"
  using assms by (auto simp: isDigit_def isSpace_def)

lemma takeWhile_run:
  assumes "list_all P ds" and "rest = [] \<or> \<not> P (hd rest)"
  shows "takeWhile P (ds @ rest) = ds"
proof -
  have "takeWhile P rest = []"
    using assms(2) by (cases rest) auto
  with assms(1) show ?thesis
    by (induction ds) auto
qed

lemma trim_id:
  assumes "s \<noteq> []" and "\<not> isSpace (hd s)" and "\<not> isSpace (last s)"
  shows "trim s = s"
proof -
  have 1: "dropWhile isSpace s = s"
    using assms(1,2) by (cases s) auto
  have "rev s \<noteq> []" "\<not> isSpace (hd (rev s))"
    using assms(1,3) by (simp_all add: hd_rev)
  then have "dropWhile isSpace (rev s) = rev s"
    by (cases "rev s") auto
  with 1 show ?thesis
    by (simp add: trim_def)
qed

lemma valueShapes_None:
  assumes "\<not> valueStart u"
  shows "valueShapes u = None"
proof -
  from assms have w: "\<not> startsWord u" and q: "\<not> opens (CHR 0x27) (CHR 0x27) u"
    and l: "\<not> opens CHR ''['' CHR '']'' u" and d: "\<not> opens CHR ''{'' CHR ''}'' u"
    by (simp_all add: valueStart_def)
  have "aString u = None"
    using q by (cases u) (auto simp: aString_def delimited_def opens_def)
  moreover have "aBoolean u = None"
    using w by (simp add: aBoolean_def boundary_def)
  moreover have "aNumber u = None"
    using w by (simp add: aNumber_def boundary_def)
  moreover have "aList u = None"
    using l by (cases u) (auto simp: aList_def delimited_def opens_def)
  moreover have "aDict u = None"
    using d by (cases u) (auto simp: aDict_def delimited_def opens_def)
  ultimately show ?thesis
    by (simp add: valueShapes_def)
qed

lemma attrAt_None:
  assumes "\<And>w1 w2 u. s = a @ w1 @ '':'' @ w2 @ u \<Longrightarrow> \<forall>c\<in>set w1. isSpace c \<Longrightarrow>
             \<forall>c\<in>set w2. isSpace c \<Longrightarrow> \<not> valueStart u"
  shows "attrAt a s = None"
proof (cases "prefix a s")
  case False
  then show ?thesis by (rule attrAt_no_prefix)
next
  case True
  then obtain t where s: "s = a @ t"
    by (auto simp: prefix_def)
  show ?thesis
  proof (cases "dropWhile isSpace t")
    case Nil
    show ?thesis unfolding s by (simp add: attrAt_def Nil)
  next
    case (Cons c r)
    show ?thesis
    proof (cases "c = CHR '':''")
      case False
      then show ?thesis unfolding s by (simp add: attrAt_def Cons)
    next
      case True
      note t = takeWhile_dropWhile_id [of isSpace t, unfolded Cons True]
      note r = takeWhile_dropWhile_id [of isSpace r]
      have "s = a @ takeWhile isSpace t @ '':'' @ takeWhile isSpace r @ dropWhile isSpace r"
        unfolding s by (simp add: t r)
      moreover have "\<forall>c\<in>set (takeWhile isSpace t). isSpace c"
        by (auto dest: set_takeWhileD)
      moreover have "\<forall>c\<in>set (takeWhile isSpace r). isSpace c"
        by (auto dest: set_takeWhileD)
      ultimately have "\<not> valueStart (dropWhile isSpace r)"
        by (rule assms)
      then have "valueShapes (dropWhile isSpace r) = None"
        by (rule valueShapes_None)
      then show ?thesis
        unfolding s by (simp add: attrAt_def Cons True)
    qed
  qed
qed

lemma extractAttribute_at:
  assumes "\<forall>i<length pre. \<forall>w1 w2 u.
             drop i (pre @ a @ ws1 @ '':'' @ ws2 @ d # r) = a @ w1 @ '':'' @ w2 @ u
             \<and> (\<forall>c\<in>set w1. isSpace c) \<and> (\<forall>c\<in>set w2. isSpace c) \<longrightarrow> \<not> valueStart u"
    and "\<forall>c\<in>set ws1. isSpace c" and "\<forall>c\<in>set ws2. isSpace c" and "\<not> isSpace d"
    and "valueShapes (d # r) = Some groups"
  shows "extractAttribute (pre @ a @ ws1 @ '':'' @ ws2 @ d # r) a = firstValue 1 groups"
proof -
  let ?s = "a @ ws1 @ '':'' @ ws2 @ d # r"
  have "attrAt a (drop i (pre @ ?s)) = None" if "i < length pre" for i
  proof (rule attrAt_None)
    fix w1 w2 u
    assume "drop i (pre @ ?s) = a @ w1 @ '':'' @ w2 @ u" "\<forall>c\<in>set w1. isSpace c"
      "\<forall>c\<in>set w2. isSpace c"
    with assms(1) that show "\<not> valueStart u" by blast
  qed
  then have "searchFrom (attrAt a) (pre @ ?s) = searchFrom (attrAt a) ?s"
    by (rule searchFrom_skip)
  also have "\<dots> = Some groups"
    using attrAt_value [OF assms(2,3,4)] assms(5) by (intro searchFrom_here) simp
  finally show ?thesis
    by (simp add: extractAttribute_def)
qed

lemma extractAttribute_nowhere:
  assumes "\<forall>i w1 w2 u. drop i t = a @ w1 @ '':'' @ w2 @ u
             \<and> (\<forall>c\<in>set w1. isSpace c) \<and> (\<forall>c\<in>set w2. isSpace c) \<longrightarrow> \<not> valueStart u"
  shows "extractAttribute t a = None"
proof -
  have "attrAt a (drop i t) = None" for i
  proof (rule attrAt_None)
    fix w1 w2 u
    assume "drop i t = a @ w1 @ '':'' @ w2 @ u" "\<forall>c\<in>set w1. isSpace c"
      "\<forall>c\<in>set w2. isSpace c"
    with assms show "\<not> valueStart u" by blast
  qed
  then have "searchFrom (attrAt a) t = None"
    by (intro searchFrom_none)
  then show ?thesis
    by (simp add: extractAttribute_def)
qed

lemma find_first_block:
  "find P (xs @ ys) = (case find P xs of None \<Rightarrow> find P ys | Some x \<Rightarrow> Some x)"
  by (induction xs) simp_all

lemma number_alone:
  assumes "ds \<noteq> []" and "list_all isDigit ds"
  shows "aString (ds @ rest) = None" and "aBoolean (ds @ rest) = None"
    and "startsWord (ds @ rest)" and "isWord (last ds)"
proof -
  from assms(1) obtain d ds' where ds: "ds = d # ds'"
    by (cases ds) auto
  with assms(2) have d: "isDigit d" by simp
  show "aString (ds @ rest) = None"
    using ds digit_chars(1) [OF d] by (simp add: aString_def delimited_other)
  show "aBoolean (ds @ rest) = None"
    using ds digit_chars(3,4) [OF d] by (simp add: aBoolean_def)
  show "startsWord (ds @ rest)"
    using ds d by (simp add: startsWord_def isDigit_isWord)
  have "isDigit (last ds)"
    using assms by (simp add: list_all_iff)
  then show "isWord (last ds)"
    by (rule isDigit_isWord)
qed

lemma aNumber_run:
  assumes "ds \<noteq> []" and "list_all isDigit ds" and "rest = [] \<or> \<not> isDigit (hd rest)"
  shows "aNumber (ds @ rest) =
     (case find (\<lambda>l. boundary (isWord (last (take l (ds @ rest)))) (drop l (ds @ rest)))
             (numberTries (ds @ rest) (length ds)
              @ concat (map (numberTries (ds @ rest)) (rev [1..<length ds]))) of
        None \<Rightarrow> Some None
      | Some l \<Rightarrow> Some (Some (take l (ds @ rest))))"
proof -
  have run: "takeWhile isDigit (ds @ rest) = ds"
    using assms(2,3) by (rule takeWhile_run)
  have idx: "rev [1..<Suc (length ds)] = length ds # rev [1..<length ds]"
    using assms(1) by (cases ds) simp_all
  have tries: "concat (map (numberTries (ds @ rest)) (rev [1..<Suc (length ds)])) =
      numberTries (ds @ rest) (length ds)
      @ concat (map (numberTries (ds @ rest)) (rev [1..<length ds]))"
    by (simp only: idx list.map concat.simps)
  show ?thesis
    unfolding aNumber_def run Let_def tries
    using number_alone(3) [OF assms(1,2), of rest] by (simp add: boundary_def)
qed

lemma number_found:
  assumes "ds \<noteq> []" and "list_all isDigit ds" and "rest = [] \<or> \<not> isDigit (hd rest)"
    and "numberTries (ds @ rest) (length ds) = before @ l # after"
    and "\<forall>k\<in>set before. \<not> boundary (isWord (last (take k (ds @ rest)))) (drop k (ds @ rest))"
    and "boundary (isWord (last (take l (ds @ rest)))) (drop l (ds @ rest))"
  shows "valueShapes (ds @ rest) = Some [None, None, Some (take l (ds @ rest)), None, None]"
proof -
  let ?P = "\<lambda>l. boundary (isWord (last (take l (ds @ rest)))) (drop l (ds @ rest))"
  have "find ?P before = None"
    using assms(5) by (simp add: find_None_iff)
  then have "aNumber (ds @ rest) = Some (Some (take l (ds @ rest)))"
    unfolding aNumber_run [OF assms(1,2,3)] assms(4)
    using assms(6) by (simp add: find_first_block)
  then show ?thesis
    by (simp add: valueShapes_def number_alone(1,2) [OF assms(1,2)])
qed

lemma not_digit_chars: "\<not> isDigit CHR ''.''" "\<not> isWord CHR ''.''" "\<not> isSpace CHR ''.''"
  by (simp_all add: isDigit_def isWord_def isSpace_def)

lemma shape_number:
  assumes "ds \<noteq> []" and "list_all isDigit ds"
    and "\<not> startsWord rest" and "\<not> startsWith rest CHR ''.''"
  shows "valueShapes (ds @ rest) = Some [None, None, Some ds, None, None]"
proof -
  have m: "rest = [] \<or> \<not> isDigit (hd rest)"
    using assms(3) by (auto simp: startsWord_def dest: isDigit_isWord)
  have t: "numberTries (ds @ rest) (length ds) = [] @ length ds # []"
    using assms(4) m by (auto simp: numberTries_def)
  have b: "boundary (isWord (last (take (length ds) (ds @ rest)))) (drop (length ds) (ds @ rest))"
    using number_alone(4) [OF assms(1,2)] assms(3) by (simp add: boundary_def)
  from number_found [OF assms(1,2) m t _ b] show ?thesis
    by simp
qed

lemma shape_number_point_digit:
  assumes "ds \<noteq> []" and "list_all isDigit ds" and "isDigit d" and "\<not> startsWord r3"
  shows "valueShapes (ds @ CHR ''.'' # d # r3)
           = Some [None, None, Some (ds @ [CHR ''.'', d]), None, None]"
proof -
  let ?rest = "CHR ''.'' # d # r3"
  have m: "?rest = [] \<or> \<not> isDigit (hd ?rest)"
    by (simp add: not_digit_chars)
  have t: "numberTries (ds @ ?rest) (length ds)
             = [] @ (length ds + 2) # [length ds + 1, length ds]"
    using assms(3) by (simp add: numberTries_def startsWith_def not_digit_chars)
  have b: "boundary (isWord (last (take (length ds + 2) (ds @ ?rest))))
             (drop (length ds + 2) (ds @ ?rest))"
    using assms(3,4) by (simp add: boundary_def isDigit_isWord)
  from number_found [OF assms(1,2) m t _ b] show ?thesis
    by simp
qed

lemma shape_number_point:
  assumes "ds \<noteq> []" and "list_all isDigit ds" and "startsWord r2"
    and "\<not> (\<exists>d r3. r2 = d # r3 \<and> isDigit d \<and> \<not> startsWord r3)"
  shows "valueShapes (ds @ CHR ''.'' # r2) = Some [None, None, Some (ds @ ''.''), None, None]"
proof -
  let ?rest = "CHR ''.'' # r2"
  from assms(3) obtain c r3 where r2: "r2 = c # r3" and c: "isWord c"
    by (cases r2) (auto simp: startsWord_def)
  have m: "?rest = [] \<or> \<not> isDigit (hd ?rest)"
    by (simp add: not_digit_chars)
  have t: "numberTries (ds @ ?rest) (length ds)
             = (if isDigit c then [length ds + 2] else []) @ (length ds + 1) # [length ds]"
    by (simp add: numberTries_def startsWith_def not_digit_chars r2)
  have glued: "startsWord r3" if "isDigit c"
    using assms(4) that r2 by simp
  have before: "\<forall>k\<in>set (if isDigit c then [length ds + 2] else []).
      \<not> boundary (isWord (last (take k (ds @ ?rest)))) (drop k (ds @ ?rest))"
    using glued by (simp add: boundary_def r2 isDigit_isWord)
  have b: "boundary (isWord (last (take (length ds + 1) (ds @ ?rest))))
             (drop (length ds + 1) (ds @ ?rest))"
    using c by (simp add: boundary_def r2 startsWord_def not_digit_chars)
  from number_found [OF assms(1,2) m t before b] show ?thesis
    by simp
qed

lemma shape_number_point_end:
  assumes "ds \<noteq> []" and "list_all isDigit ds" and "\<not> startsWord r2"
  shows "valueShapes (ds @ CHR ''.'' # r2) = Some [None, None, Some ds, None, None]"
proof -
  let ?rest = "CHR ''.'' # r2"
  have m: "?rest = [] \<or> \<not> isDigit (hd ?rest)"
    by (simp add: not_digit_chars)
  have nodigit: "\<not> (r2 \<noteq> [] \<and> isDigit (hd r2))"
    using assms(3) by (auto simp: startsWord_def dest: isDigit_isWord)
  have t: "numberTries (ds @ ?rest) (length ds) = [length ds + 1] @ length ds # []"
    using nodigit by (simp add: numberTries_def startsWith_def not_digit_chars)
  have before: "\<forall>k\<in>set [length ds + 1].
      \<not> boundary (isWord (last (take k (ds @ ?rest)))) (drop k (ds @ ?rest))"
    using assms(3) by (simp add: boundary_def not_digit_chars)
  have b: "boundary (isWord (last (take (length ds) (ds @ ?rest)))) (drop (length ds) (ds @ ?rest))"
    using number_alone(4) [OF assms(1,2)]
    by (simp add: boundary_def startsWord_def not_digit_chars)
  from number_found [OF assms(1,2) m t before b] show ?thesis
    by simp
qed

lemma inside_run:
  assumes "list_all isDigit ds" and "startsWord rest" and "1 \<le> l" and "l \<le> length ds"
  shows "\<not> boundary (isWord (last (take l (ds @ rest)))) (drop l (ds @ rest))"
proof -
  have "take l ds \<noteq> []" "length (take l ds) = l"
    using assms(3,4) by auto
  then have "last (take l ds) = ds ! (l - 1)"
    using assms(3) by (simp add: last_conv_nth)
  moreover have "isDigit (ds ! (l - 1))"
    using assms(1,3,4) by (simp add: list_all_length)
  ultimately have left: "isWord (last (take l (ds @ rest)))"
    using assms(4) by (simp add: isDigit_isWord)
  have right: "startsWord (drop l (ds @ rest))"
  proof (cases "l = length ds")
    case True
    with assms(2) show ?thesis by simp
  next
    case False
    with assms(4) have lt: "l < length ds" by simp
    then have "drop l ds \<noteq> []" "hd (drop l ds) = ds ! l"
      by (simp_all add: hd_drop_conv_nth)
    moreover have "isDigit (ds ! l)"
      using assms(1) lt by (simp add: list_all_length)
    ultimately show ?thesis
      using lt by (simp add: startsWord_def isDigit_isWord)
  qed
  from left right show ?thesis
    by (simp add: boundary_def)
qed

lemma tries_inside_run:
  assumes "list_all isDigit ds" and "1 \<le> k" and "k < length ds"
  shows "numberTries (ds @ rest) k = [k + 1, k]"
proof -
  have "drop k ds \<noteq> []" "hd (drop k ds) = ds ! k"
    using assms(3) by (simp_all add: hd_drop_conv_nth)
  moreover have d: "isDigit (ds ! k)"
    using assms(1,3) by (simp add: list_all_length)
  moreover have "ds ! k \<noteq> CHR ''.''"
    using d not_digit_chars(1) by auto
  ultimately show ?thesis
    using assms(3) by (simp add: numberTries_def startsWith_def)
qed

lemma shape_number_glued:
  assumes "ds \<noteq> []" and "list_all isDigit ds" and "startsWord rest" and "\<not> isDigit (hd rest)"
  shows "valueShapes (ds @ rest) = Some [None, None, None, None, None]"
proof -
  let ?s = "ds @ rest"
  let ?P = "\<lambda>l. boundary (isWord (last (take l ?s))) (drop l ?s)"
  have m: "rest = [] \<or> \<not> isDigit (hd rest)"
    using assms(4) by simp
  have nodot: "\<not> startsWith rest CHR ''.''"
    using assms(3) by (auto simp: startsWith_def startsWord_def not_digit_chars)
  have here: "numberTries ?s (length ds) = [length ds]"
    using nodot assms(4) by (simp add: numberTries_def)
  have "l \<in> {1..length ds}"
    if "l \<in> set (numberTries ?s (length ds) @ concat (map (numberTries ?s) (rev [1..<length ds])))"
    for l
  proof -
    from that assms(1) consider "l = length ds"
      | k where "1 \<le> k" "k < length ds" "l \<in> set (numberTries ?s k)"
      by (auto simp: here)
    then show ?thesis
    proof cases
      case 1
      with assms(1) show ?thesis by (cases ds) simp_all
    next
      case 2
      from 2(3) have "l = k + 1 \<or> l = k"
        by (simp add: tries_inside_run [OF assms(2) 2(1,2)])
      with 2(1,2) show ?thesis by auto
    qed
  qed
  then have "\<not> ?P l"
    if "l \<in> set (numberTries ?s (length ds) @ concat (map (numberTries ?s) (rev [1..<length ds])))"
    for l
    using that inside_run [OF assms(2,3), of l] by simp
  then have "find ?P (numberTries ?s (length ds)
      @ concat (map (numberTries ?s) (rev [1..<length ds]))) = None"
    unfolding find_None_iff by blast
  then have "aNumber ?s = Some None"
    unfolding aNumber_run [OF assms(1,2) m] by simp
  then show ?thesis
    by (simp add: valueShapes_def number_alone(1,2) [OF assms(1,2)])
qed

lemma shape_word:
  assumes "isWord c" and "\<not> isDigit c"
    and "\<not> (\<exists>b rest. c # r = b @ rest \<and> (b = ''true'' \<or> b = ''false'') \<and> \<not> startsWord rest)"
  shows "valueShapes (c # r) = Some [None, None, None, None, None]"
proof -
  have "c \<noteq> CHR 0x27"
    using assms(1) by (auto simp: isWord_def)
  then have str: "aString (c # r) = None"
    by (simp add: aString_def delimited_other)
  have no: "\<not> (prefix b (c # r) \<and> boundary True (drop n (c # r)))"
    if "b = ''true'' \<or> b = ''false''" and "length b = n" for b n
  proof
    assume a: "prefix b (c # r) \<and> boundary True (drop n (c # r))"
    then obtain rest where rest: "c # r = b @ rest"
      by (auto simp: prefix_def)
    then have "drop n (c # r) = rest"
      using that(2) by simp
    with a have "\<not> startsWord rest"
      by (simp add: boundary_def)
    with rest that(1) assms(3) show False
      by blast
  qed
  have nt: "\<not> (prefix ''true'' (c # r) \<and> boundary True (drop 4 (c # r)))"
    by (rule no) simp_all
  have nf: "\<not> (prefix ''false'' (c # r) \<and> boundary True (drop 5 (c # r)))"
    by (rule no) simp_all
  have bool: "aBoolean (c # r) = None"
    using nt nf by (auto simp: aBoolean_def)
  have num: "aNumber (c # r) = Some None"
    using assms(1,2) by (simp add: aNumber_def boundary_def startsWord_def)
  show ?thesis
    by (simp add: valueShapes_def str bool num)
qed

lemma number_value:
  assumes "cap \<noteq> []" and "isDigit (hd cap)" and "\<not> isSpace (last cap)"
  shows "stripQuotes (trim cap) = cap"
proof -
  have "trim cap = cap"
    using assms(1) digit_chars(5) [OF assms(2)] assms(3) by (rule trim_id)
  moreover have "stripQuotes cap = cap"
    using digit_chars(1,2) [OF assms(2)] by (simp add: stripQuotes_def startsWith_def)
  ultimately show ?thesis by simp
qed

lemma digits_value:
  assumes "ds \<noteq> []" and "list_all isDigit ds"
  shows "stripQuotes (trim ds) = ds" and "stripQuotes (trim (ds @ ''.'')) = ds @ ''.''"
    and "isDigit d \<Longrightarrow> stripQuotes (trim (ds @ [CHR ''.'', d])) = ds @ [CHR ''.'', d]"
proof -
  have h: "isDigit (hd ds)" and l: "isDigit (last ds)"
    using assms by (simp_all add: list_all_iff)
  show "stripQuotes (trim ds) = ds"
    using assms(1) h digit_chars(5) [OF l] by (rule number_value)
  show "stripQuotes (trim (ds @ ''.'')) = ds @ ''.''"
    using assms(1) h by (intro number_value) (simp_all add: not_digit_chars)
  show "stripQuotes (trim (ds @ [CHR ''.'', d])) = ds @ [CHR ''.'', d]" if "isDigit d"
    using assms(1) h digit_chars(5) [OF that] by (intro number_value) simp_all
qed

lemma boolean_value:
  "stripQuotes (trim ''true'') = ''true''" "stripQuotes (trim ''false'') = ''false''"
  by (simp_all add: trim_def isSpace_def stripQuotes_def startsWith_def)

lemma extractAttribute_here:
  assumes "\<forall>i<length pre. \<forall>w1 w2 u.
             drop i (pre @ a @ ws1 @ '':'' @ ws2 @ v) = a @ w1 @ '':'' @ w2 @ u
             \<and> (\<forall>c\<in>set w1. isSpace c) \<and> (\<forall>c\<in>set w2. isSpace c) \<longrightarrow> \<not> valueStart u"
    and "\<forall>c\<in>set ws1. isSpace c" and "\<forall>c\<in>set ws2. isSpace c"
    and "v = d # r" and "\<not> isSpace d" and "valueShapes (d # r) = Some groups"
  shows "extractAttribute (pre @ a @ ws1 @ '':'' @ ws2 @ v) a = firstValue 1 groups"
  using assms(1) unfolding assms(4) by (rule extractAttribute_at [OF _ assms(2,3,5,6)])

lemma not_a_key:
  assumes "c # t = w1 @ CHR '':'' # rest" and "\<forall>x\<in>set w1. isSpace x"
    and "\<not> isSpace c" and "c \<noteq> CHR '':''"
  shows False
  using assms by (cases w1) auto

text \<open>
  C9, as the claim states it, fails: the text of a list is not returned raw, its
  surrounding white space is trimmed; and a shape that matches with an empty text
  (an empty string, here, or an empty list) gives \<open>null\<close>, as if nothing had
  matched.
\<close>

theorem extractAttribute_counterexample:
  "aList ''[ 1, 2 ]'' = Some '' 1, 2 ''
   \<and> extractAttribute ''x: [ 1, 2 ]'' ''x'' = Some ''1, 2''
   \<and> aString [CHR 0x27, CHR 0x27] = Some []
   \<and> extractAttribute (''x: '' @ [CHR 0x27, CHR 0x27]) ''x'' = None"
  by code_simp

text \<open>
  C9, amended. The key is the first place in the text where the attribute name is
  followed by optional white space, a colon, optional white space and the start of
  a value; there the five shapes are tried in the order single-quoted string,
  boolean, number, list, dict, and the text of the first that matches is returned
  trimmed of the white space around it, a string, boolean or number also without
  one enclosing pair of quotes; a shape that matches with an empty text gives
  \<open>null\<close>. With \<open>v\<close> the text at the key:
  \<^item> a single-quoted string yields the text between the quotes;
  \<^item> \<open>true\<close> or \<open>false\<close> not followed by a word character yields that word;
  \<^item> a run of digits yields the digits when neither a word character nor a dot
    follows; followed by a dot it yields the digits, the dot and one more digit
    when a digit and then no word character follow, the digits and the dot when
    another word character follows the dot, and the digits alone otherwise; a run
    of digits with a letter or underscore right after it yields \<open>null\<close>;
  \<^item> any other word yields \<open>null\<close>;
  \<^item> a bracketed list and a brace-delimited dict yield the text up to the first
    closing bracket or brace, unparsed.
  Where the name is nowhere followed by a colon and the start of a value, the result
  is \<open>null\<close>. On \<open>state: [1, 1, 1, 1, 1, 1, 1, 1, 0, 0]\<close> the key \<open>state\<close> yields
  \<open>1, 1, 1, 1, 1, 1, 1, 1, 0, 0\<close>.
\<close>

theorem extractAttribute_shapes:
  assumes "list_all isWord a"
    and "\<forall>i<length pre. \<forall>w1 w2 u.
           drop i (pre @ a @ ws1 @ '':'' @ ws2 @ v) = a @ w1 @ '':'' @ w2 @ u
           \<and> (\<forall>c\<in>set w1. isSpace c) \<and> (\<forall>c\<in>set w2. isSpace c) \<longrightarrow> \<not> valueStart u"
    and "\<forall>c\<in>set ws1. isSpace c" and "\<forall>c\<in>set ws2. isSpace c"
  shows "(\<forall>g rest. v = [CHR 0x27] @ g @ [CHR 0x27] @ rest \<and> CHR 0x27 \<notin> set g \<longrightarrow>
            extractAttribute (pre @ a @ ws1 @ '':'' @ ws2 @ v) a
              = (if g = [] then None else Some (stripQuotes (trim g))))
       \<and> (\<forall>b rest. v = b @ rest \<and> (b = ''true'' \<or> b = ''false'') \<and> \<not> startsWord rest \<longrightarrow>
            extractAttribute (pre @ a @ ws1 @ '':'' @ ws2 @ v) a = Some b)
       \<and> (\<forall>ds rest. v = ds @ rest \<and> ds \<noteq> [] \<and> list_all isDigit ds \<and> \<not> startsWord rest
              \<and> \<not> startsWith rest CHR ''.'' \<longrightarrow>
            extractAttribute (pre @ a @ ws1 @ '':'' @ ws2 @ v) a = Some ds)
       \<and> (\<forall>ds d rest. v = ds @ ''.'' @ [d] @ rest \<and> ds \<noteq> [] \<and> list_all isDigit ds
              \<and> isDigit d \<and> \<not> startsWord rest \<longrightarrow>
            extractAttribute (pre @ a @ ws1 @ '':'' @ ws2 @ v) a = Some (ds @ ''.'' @ [d]))
       \<and> (\<forall>ds rest. v = ds @ ''.'' @ rest \<and> ds \<noteq> [] \<and> list_all isDigit ds \<and> startsWord rest
              \<and> \<not> (\<exists>d r. rest = d # r \<and> isDigit d \<and> \<not> startsWord r) \<longrightarrow>
            extractAttribute (pre @ a @ ws1 @ '':'' @ ws2 @ v) a = Some (ds @ ''.''))
       \<and> (\<forall>ds rest. v = ds @ ''.'' @ rest \<and> ds \<noteq> [] \<and> list_all isDigit ds
              \<and> \<not> startsWord rest \<longrightarrow>
            extractAttribute (pre @ a @ ws1 @ '':'' @ ws2 @ v) a = Some ds)
       \<and> (\<forall>ds rest. v = ds @ rest \<and> ds \<noteq> [] \<and> list_all isDigit ds \<and> startsWord rest
              \<and> \<not> isDigit (hd rest) \<longrightarrow>
            extractAttribute (pre @ a @ ws1 @ '':'' @ ws2 @ v) a = None)
       \<and> (\<forall>c r. v = c # r \<and> isWord c \<and> \<not> isDigit c
              \<and> \<not> (\<exists>b rest. v = b @ rest \<and> (b = ''true'' \<or> b = ''false'')
                      \<and> \<not> startsWord rest) \<longrightarrow>
            extractAttribute (pre @ a @ ws1 @ '':'' @ ws2 @ v) a = None)
       \<and> (\<forall>g rest. v = ''['' @ g @ '']'' @ rest \<and> CHR '']'' \<notin> set g \<longrightarrow>
            extractAttribute (pre @ a @ ws1 @ '':'' @ ws2 @ v) a
              = (if g = [] then None else Some (trim g)))
       \<and> (\<forall>g rest. v = ''{'' @ g @ ''}'' @ rest \<and> CHR ''}'' \<notin> set g \<longrightarrow>
            extractAttribute (pre @ a @ ws1 @ '':'' @ ws2 @ v) a
              = (if g = [] then None else Some (trim g)))
       \<and> (\<forall>t. (\<forall>i w1 w2 u. drop i t = a @ w1 @ '':'' @ w2 @ u
                  \<and> (\<forall>c\<in>set w1. isSpace c) \<and> (\<forall>c\<in>set w2. isSpace c) \<longrightarrow> \<not> valueStart u) \<longrightarrow>
            extractAttribute t a = None)
       \<and> extractAttribute ''state: [1, 1, 1, 1, 1, 1, 1, 1, 0, 0]'' ''state''
           = Some ''1, 1, 1, 1, 1, 1, 1, 1, 0, 0''"
proof -
  note here = extractAttribute_here [OF assms(2,3,4)]
  have string: "extractAttribute (pre @ a @ ws1 @ '':'' @ ws2 @ v) a
      = (if g = [] then None else Some (stripQuotes (trim g)))"
    if "v = [CHR 0x27] @ g @ [CHR 0x27] @ rest \<and> CHR 0x27 \<notin> set g" for g rest
  proof -
    from that have v: "v = CHR 0x27 # g @ CHR 0x27 # rest" and g: "CHR 0x27 \<notin> set g"
      by simp_all
    have "\<not> isSpace (CHR 0x27)"
      by (simp add: isSpace_def)
    from here [OF v this shape_string [OF g]] show ?thesis
      by simp
  qed
  have bool: "extractAttribute (pre @ a @ ws1 @ '':'' @ ws2 @ v) a = Some b"
    if "v = b @ rest \<and> (b = ''true'' \<or> b = ''false'') \<and> \<not> startsWord rest" for b rest
  proof -
    from that have v: "v = b @ rest" and b: "b = ''true'' \<or> b = ''false''"
      and rest: "\<not> startsWord rest"
      by simp_all
    from b show ?thesis
    proof
      assume t: "b = ''true''"
      have v': "v = CHR ''t'' # ''rue'' @ rest"
        by (simp add: v t)
      have shape: "valueShapes (CHR ''t'' # ''rue'' @ rest)
          = Some [None, Some ''true'', None, None, None]"
        using shape_true [OF rest] by simp
      have "\<not> isSpace CHR ''t''"
        by (simp add: isSpace_def)
      from here [OF v' this shape] show ?thesis
        by (simp add: t boolean_value)
    next
      assume f: "b = ''false''"
      have v': "v = CHR ''f'' # ''alse'' @ rest"
        by (simp add: v f)
      have shape: "valueShapes (CHR ''f'' # ''alse'' @ rest)
          = Some [None, Some ''false'', None, None, None]"
        using shape_false [OF rest] by simp
      have "\<not> isSpace CHR ''f''"
        by (simp add: isSpace_def)
      from here [OF v' this shape] show ?thesis
        by (simp add: f boolean_value)
    qed
  qed
  have digits: "extractAttribute (pre @ a @ ws1 @ '':'' @ ws2 @ v) a = firstValue 1 groups"
    if "v = ds @ rest" "ds \<noteq> []" "list_all isDigit ds" "valueShapes (ds @ rest) = Some groups"
    for ds rest groups
  proof -
    from that(2) obtain d ds' where ds: "ds = d # ds'"
      by (cases ds) auto
    with that(3) have d: "isDigit d" by simp
    have v': "v = d # ds' @ rest"
      by (simp add: that(1) ds)
    have shape: "valueShapes (d # ds' @ rest) = Some groups"
      using that(4) by (simp add: ds)
    from here [OF v' digit_chars(5) [OF d] shape] show ?thesis .
  qed
  have plain: "extractAttribute (pre @ a @ ws1 @ '':'' @ ws2 @ v) a = Some ds"
    if "v = ds @ rest \<and> ds \<noteq> [] \<and> list_all isDigit ds \<and> \<not> startsWord rest
        \<and> \<not> startsWith rest CHR ''.''" for ds rest
  proof -
    from that have v: "v = ds @ rest" and ds: "ds \<noteq> []" "list_all isDigit ds"
      and rest: "\<not> startsWord rest" "\<not> startsWith rest CHR ''.''"
      by simp_all
    from digits [OF v ds shape_number [OF ds rest]] show ?thesis
      using ds(1) by (simp add: digits_value(1) [OF ds])
  qed
  have point_digit: "extractAttribute (pre @ a @ ws1 @ '':'' @ ws2 @ v) a = Some (ds @ ''.'' @ [d])"
    if "v = ds @ ''.'' @ [d] @ rest \<and> ds \<noteq> [] \<and> list_all isDigit ds \<and> isDigit d
        \<and> \<not> startsWord rest" for ds d rest
  proof -
    from that have v: "v = ds @ CHR ''.'' # d # rest" and ds: "ds \<noteq> []" "list_all isDigit ds"
      and d: "isDigit d" and rest: "\<not> startsWord rest"
      by simp_all
    from digits [OF v ds shape_number_point_digit [OF ds d rest]] show ?thesis
      by (simp add: digits_value(3) [OF ds d])
  qed
  have point: "extractAttribute (pre @ a @ ws1 @ '':'' @ ws2 @ v) a = Some (ds @ ''.'')"
    if "v = ds @ ''.'' @ rest \<and> ds \<noteq> [] \<and> list_all isDigit ds \<and> startsWord rest
        \<and> \<not> (\<exists>d r. rest = d # r \<and> isDigit d \<and> \<not> startsWord r)" for ds rest
  proof -
    from that have v: "v = ds @ CHR ''.'' # rest" and ds: "ds \<noteq> []" "list_all isDigit ds"
      and rest: "startsWord rest" "\<not> (\<exists>d r. rest = d # r \<and> isDigit d \<and> \<not> startsWord r)"
      by simp_all
    from digits [OF v ds shape_number_point [OF ds rest]] show ?thesis
      by (simp add: digits_value(2) [OF ds])
  qed
  have point_end: "extractAttribute (pre @ a @ ws1 @ '':'' @ ws2 @ v) a = Some ds"
    if "v = ds @ ''.'' @ rest \<and> ds \<noteq> [] \<and> list_all isDigit ds \<and> \<not> startsWord rest"
    for ds rest
  proof -
    from that have v: "v = ds @ CHR ''.'' # rest" and ds: "ds \<noteq> []" "list_all isDigit ds"
      and rest: "\<not> startsWord rest"
      by simp_all
    from digits [OF v ds shape_number_point_end [OF ds rest]] show ?thesis
      using ds(1) by (simp add: digits_value(1) [OF ds])
  qed
  have glued: "extractAttribute (pre @ a @ ws1 @ '':'' @ ws2 @ v) a = None"
    if "v = ds @ rest \<and> ds \<noteq> [] \<and> list_all isDigit ds \<and> startsWord rest
        \<and> \<not> isDigit (hd rest)" for ds rest
  proof -
    from that have v: "v = ds @ rest" and ds: "ds \<noteq> []" "list_all isDigit ds"
      and rest: "startsWord rest" "\<not> isDigit (hd rest)"
      by simp_all
    from digits [OF v ds shape_number_glued [OF ds rest]] show ?thesis
      by simp
  qed
  have word: "extractAttribute (pre @ a @ ws1 @ '':'' @ ws2 @ v) a = None"
    if "v = c # r \<and> isWord c \<and> \<not> isDigit c
        \<and> \<not> (\<exists>b rest. v = b @ rest \<and> (b = ''true'' \<or> b = ''false'') \<and> \<not> startsWord rest)"
    for c r
  proof -
    from that have v: "v = c # r" and c: "isWord c" "\<not> isDigit c"
      and other: "\<not> (\<exists>b rest. c # r = b @ rest \<and> (b = ''true'' \<or> b = ''false'')
                      \<and> \<not> startsWord rest)"
      by simp_all
    have "\<not> isSpace c"
      using c(1) by (auto simp: isWord_def isSpace_def)
    from here [OF v this shape_word [OF c other]] show ?thesis
      by simp
  qed
  have list: "extractAttribute (pre @ a @ ws1 @ '':'' @ ws2 @ v) a
      = (if g = [] then None else Some (trim g))"
    if "v = ''['' @ g @ '']'' @ rest \<and> CHR '']'' \<notin> set g" for g rest
  proof -
    from that have v: "v = CHR ''['' # g @ CHR '']'' # rest" and g: "CHR '']'' \<notin> set g"
      by simp_all
    have "\<not> isSpace CHR ''[''"
      by (simp add: isSpace_def)
    from here [OF v this shape_list [OF g]] show ?thesis
      by simp
  qed
  have dict: "extractAttribute (pre @ a @ ws1 @ '':'' @ ws2 @ v) a
      = (if g = [] then None else Some (trim g))"
    if "v = ''{'' @ g @ ''}'' @ rest \<and> CHR ''}'' \<notin> set g" for g rest
  proof -
    from that have v: "v = CHR ''{'' # g @ CHR ''}'' # rest" and g: "CHR ''}'' \<notin> set g"
      by simp_all
    have "\<not> isSpace CHR ''{''"
      by (simp add: isSpace_def)
    from here [OF v this shape_dict [OF g]] show ?thesis
      by simp
  qed
  have nowhere: "extractAttribute t a = None"
    if "\<forall>i w1 w2 u. drop i t = a @ w1 @ '':'' @ w2 @ u
          \<and> (\<forall>c\<in>set w1. isSpace c) \<and> (\<forall>c\<in>set w2. isSpace c) \<longrightarrow> \<not> valueStart u" for t
    using that by (rule extractAttribute_nowhere)
  have example: "extractAttribute ''state: [1, 1, 1, 1, 1, 1, 1, 1, 0, 0]'' ''state''
           = Some ''1, 1, 1, 1, 1, 1, 1, 1, 0, 0''"
    by code_simp
  show ?thesis
    by (intro conjI allI impI;
        (erule string | erule bool | erule plain | erule point_digit | erule point
         | erule point_end | erule glued | erule word | erule list | erule dict
         | erule nowhere | rule example))
qed

theorem extractAttribute_shapes_witness:
  "extractAttribute ''stated state: 12.55'' ''state'' = Some ''12.''"
proof -
  have h1: "list_all isWord ''state''"
    by (simp add: isWord_def)
  have h2: "\<forall>i<length ''stated ''. \<forall>w1 w2 u.
      drop i (''stated '' @ ''state'' @ [] @ '':'' @ '' '' @ ''12.55'')
        = ''state'' @ w1 @ '':'' @ w2 @ u
      \<and> (\<forall>c\<in>set w1. isSpace c) \<and> (\<forall>c\<in>set w2. isSpace c) \<longrightarrow> \<not> valueStart u"
  proof (intro allI impI)
    fix i w1 w2 u
    assume i: "i < length ''stated ''"
    assume a: "drop i (''stated '' @ ''state'' @ [] @ '':'' @ '' '' @ ''12.55'')
        = ''state'' @ w1 @ '':'' @ w2 @ u
      \<and> (\<forall>c\<in>set w1. isSpace c) \<and> (\<forall>c\<in>set w2. isSpace c)"
    from i have "i = 0 \<or> i = 1 \<or> i = 2 \<or> i = 3 \<or> i = 4 \<or> i = 5 \<or> i = 6"
      by auto
    then have "i = 0"
      using a by (elim disjE) simp_all
    with a have "CHR ''d'' # '' state: 12.55'' = w1 @ CHR '':'' # w2 @ u"
      and "\<forall>c\<in>set w1. isSpace c"
      by simp_all
    then have False
      by (rule not_a_key) (simp_all add: isSpace_def)
    then show "\<not> valueStart u" ..
  qed
  have h3: "\<forall>c\<in>set []. isSpace c"
    by simp
  have h4: "\<forall>c\<in>set '' ''. isSpace c"
    by (simp add: isSpace_def)
  note point = extractAttribute_shapes [OF h1 h2 h3 h4, THEN conjunct2, THEN conjunct2,
      THEN conjunct2, THEN conjunct2, THEN conjunct1, rule_format, of "''12''" "''55''"]
  have "''12.55'' = ''12'' @ ''.'' @ ''55'' \<and> ''12'' \<noteq> [] \<and> list_all isDigit ''12''
      \<and> startsWord ''55''
      \<and> \<not> (\<exists>d r. ''55'' = d # r \<and> isDigit d \<and> \<not> startsWord r)"
    by (simp add: isDigit_def startsWord_def isWord_def)
  from point [OF this] show ?thesis
    by simp
qed

section \<open>Properties of the read of the full state\<close>














lemma forLoop_done: "\<not> lessThanNum i bound \<Longrightarrow> forLoop bound body i s = Inr s"
  by (simp add: forLoop.simps)

lemma forLoop_returns:
  assumes "\<And>k t. i \<le> k \<Longrightarrow> k < n \<Longrightarrow> I t \<Longrightarrow> \<exists>t'. body k t = Inr t' \<and> I t'"
    and "I s" and "n \<le> 2 ^ 53"
  shows "\<exists>s'. forLoop (Num n) body i s = Inr s' \<and> I s'"
  using assms
proof (induction "nat (n - i)" arbitrary: i s)
  case 0
  then have "\<not> lessThanNum i (Num n)"
    by (simp add: lessThanNum_def)
  with 0 show ?case
    by (simp add: forLoop_done)
next
  case (Suc m)
  then have lt: "i < n" by linarith
  from Suc.prems(1) [OF order_refl lt Suc.prems(2)] obtain t where
    t: "body i s = Inr t" "I t" by blast
  have m: "m = nat (n - (i + 1))"
    using Suc.hyps(2) by linarith
  have step: "\<And>k t. i + 1 \<le> k \<Longrightarrow> k < n \<Longrightarrow> I t \<Longrightarrow> \<exists>t'. body k t = Inr t' \<and> I t'"
    using Suc.prems(1) by simp
  from Suc.hyps(1) [OF m step t(2) Suc.prems(3)] obtain s' where
    "forLoop (Num n) body (i + 1) t = Inr s'" "I s'" by blast
  moreover have "\<not> 2 ^ 53 \<le> i"
    using lt Suc.prems(3) by linarith
  ultimately show ?case
    using lt t(1) by (subst forLoop.simps) (simp add: lessThanNum_def)
qed

lemma forLoop_throws:
  assumes "\<And>k t. i \<le> k \<Longrightarrow> k < j \<Longrightarrow> I t \<Longrightarrow> \<exists>t'. body k t = Inr t' \<and> I t'"
    and "\<And>t. I t \<Longrightarrow> body j t = Inl e"
    and "I s" and "i \<le> j" and "j < n" and "n \<le> 2 ^ 53"
  shows "forLoop (Num n) body i s = Inl e"
  using assms
proof (induction "nat (j - i)" arbitrary: i s)
  case 0
  then have "i = j" by linarith
  with 0 show ?case
    by (subst forLoop.simps) (simp add: lessThanNum_def)
next
  case (Suc m)
  then have lt: "i < j" by linarith
  from Suc.prems(1) [OF order_refl lt Suc.prems(3)] obtain t where
    t: "body i s = Inr t" "I t" by blast
  have m: "m = nat (j - (i + 1))"
    using Suc.hyps(2) by linarith
  have step: "\<And>k t. i + 1 \<le> k \<Longrightarrow> k < j \<Longrightarrow> I t \<Longrightarrow> \<exists>t'. body k t = Inr t' \<and> I t'"
    using Suc.prems(1) by simp
  have "i + 1 \<le> j" using lt by simp
  from Suc.hyps(1) [OF m step Suc.prems(2) t(2) this Suc.prems(5,6)]
  have "forLoop (Num n) body (i + 1) t = Inl e" .
  moreover have "\<not> 2 ^ 53 \<le> i" "i < n"
    using lt Suc.prems(5,6) by linarith+
  ultimately show ?case
    using t(1) by (subst forLoop.simps) (simp add: lessThanNum_def)
qed

lemma slotAt_None_iff:
  "slotAt xs k = None \<longleftrightarrow> \<not> (0 \<le> k \<and> k < int (length xs)) \<or> xs ! nat k = None"
  by (simp add: slotAt_def)

lemma same_holes_slotAt:
  assumes "map (\<lambda>x. x = None) ps = map (\<lambda>x. x = None) ports"
  shows "slotAt ps k = None \<longleftrightarrow> slotAt ports k = None"
proof -
  have "length (map (\<lambda>x. x = None) ps) = length (map (\<lambda>x. x = None) ports)"
    by (simp only: assms)
  then have len: "length ps = length ports"
    by simp
  show ?thesis
  proof (cases "0 \<le> k \<and> k < int (length ports)")
    case True
    then have j: "nat k < length ports" by linarith
    have "map (\<lambda>x. x = None) ps ! nat k = map (\<lambda>x. x = None) ports ! nat k"
      by (simp only: assms)
    with j len have "(ps ! nat k = None) = (ports ! nat k = None)"
      by simp
    with True len show ?thesis
      by (simp add: slotAt_def)
  next
    case False
    with len show ?thesis
      by (auto simp: slotAt_def)
  qed
qed

lemma holes_update:
  assumes "k < length ps" and "ps ! k = Some p"
  shows "map (\<lambda>x. x = None) (ps[k := Some q]) = map (\<lambda>x. x = None) ps"
proof (rule nth_equalityI)
  show "length (map (\<lambda>x. x = None) (ps[k := Some q])) = length (map (\<lambda>x. x = None) ps)"
    by simp
next
  fix i assume "i < length (map (\<lambda>x. x = None) (ps[k := Some q]))"
  then have i: "i < length ps" by simp
  show "map (\<lambda>x. x = None) (ps[k := Some q]) ! i = map (\<lambda>x. x = None) ps ! i"
  proof (cases "i = k")
    case True
    with i assms show ?thesis by simp
  next
    case False
    with i show ?thesis by simp
  qed
qed

lemma fillPort_allocated:
  assumes "sw_ports t = Some ps" and "map (\<lambda>x. x = None) ps = map (\<lambda>x. x = None) ports"
    and "slotAt ports k \<noteq> None"
  shows "\<exists>t' ps'. fillPort links pkts k t = Inr t' \<and> sw_ports t' = Some ps'
           \<and> map (\<lambda>x. x = None) ps' = map (\<lambda>x. x = None) ports"
proof -
  have "slotAt ps k \<noteq> None"
    using same_holes_slotAt [OF assms(2), of k] assms(3) by simp
  then obtain port where port: "slotAt ps k = Some port" by auto
  then have k: "nat k < length ps" "ps ! nat k = Some port"
    by (auto simp: slotAt_def split: if_splits)
  have fill: "fillPort links pkts k t =
      Inr (t\<lparr>sw_ports := Some (ps[nat k := Some (filledPort links pkts k port)])\<rparr>)"
    using assms(1) port by (simp add: fillPort_def)
  have "map (\<lambda>x. x = None) (ps[nat k := Some (filledPort links pkts k port)])
      = map (\<lambda>x. x = None) ports"
    using holes_update [OF k] assms(2) by simp
  moreover have "sw_ports (t\<lparr>sw_ports := Some (ps[nat k := Some (filledPort links pkts k port)])\<rparr>)
      = Some (ps[nat k := Some (filledPort links pkts k port)])"
    by simp
  ultimately show ?thesis
    using fill by blast
qed

lemma fillPort_missing:
  assumes "sw_ports t = Some ps" and "map (\<lambda>x. x = None) ps = map (\<lambda>x. x = None) ports"
    and "slotAt ports k = None"
  shows "fillPort links pkts k t = Inl JsTypeError"
proof -
  have "slotAt ps k = None"
    using same_holes_slotAt [OF assms(2), of k] assms(3) by simp
  with assms(1) show ?thesis
    by (simp add: fillPort_def)
qed

lemma fillPort_step:
  assumes "\<exists>ps. sw_ports t = Some ps \<and> map (\<lambda>x. x = None) ps = map (\<lambda>x. x = None) ports"
    and "slotAt ports k \<noteq> None"
  shows "\<exists>t'. fillPort links pkts k t = Inr t'
           \<and> (\<exists>ps. sw_ports t' = Some ps \<and> map (\<lambda>x. x = None) ps = map (\<lambda>x. x = None) ports)"
proof -
  from assms(1) obtain ps where
    ps: "sw_ports t = Some ps" "map (\<lambda>x. x = None) ps = map (\<lambda>x. x = None) ports" by blast
  from fillPort_allocated [OF ps assms(2)] obtain t' ps' where
    "fillPort links pkts k t = Inr t'" "sw_ports t' = Some ps'"
    "map (\<lambda>x. x = None) ps' = map (\<lambda>x. x = None) ports" by blast
  then show ?thesis by blast
qed

lemma fillPort_stop:
  assumes "\<exists>ps. sw_ports t = Some ps \<and> map (\<lambda>x. x = None) ps = map (\<lambda>x. x = None) ports"
    and "slotAt ports k = None"
  shows "fillPort links pkts k t = Inl JsTypeError"
proof -
  from assms(1) obtain ps where
    ps: "sw_ports t = Some ps" "map (\<lambda>x. x = None) ps = map (\<lambda>x. x = None) ports" by blast
  from ps assms(2) show ?thesis by (rule fillPort_missing)
qed


lemma fill_loop_ok:
  assumes "sw_ports swtch = Some ports" and "n \<le> 2 ^ 53"
    and none: "\<And>i. 0 \<le> i \<Longrightarrow> i < n \<Longrightarrow> slotAt ports i \<noteq> None"
  shows "\<exists>s'. forLoop (Num n) (fillPort links pkts) 0 swtch = Inr s'"
proof -
  let ?I = "\<lambda>t. \<exists>ps. sw_ports t = Some ps \<and> map (\<lambda>x. x = None) ps = map (\<lambda>x. x = None) ports"
  have step: "\<exists>t'. fillPort links pkts k t = Inr t' \<and> ?I t'"
    if "0 \<le> k" "k < n" "?I t" for k t
  proof -
    from that(1,2) have "slotAt ports k \<noteq> None" by (rule none)
    with that(3) show ?thesis by (rule fillPort_step)
  qed
  have start: "?I swtch" using assms(1) by blast
  have "\<exists>s'. forLoop (Num n) (fillPort links pkts) 0 swtch = Inr s' \<and> ?I s'"
    using step start assms(2) by (rule forLoop_returns [where I = ?I and body = "fillPort links pkts" and i = 0
          and n = n and s = swtch])
  then show ?thesis by blast
qed

lemma fill_loop_throws:
  assumes "sw_ports swtch = Some ports" and "n \<le> 2 ^ 53"
    and i: "0 \<le> i" "i < n" "slotAt ports i = None"
  shows "forLoop (Num n) (fillPort links pkts) 0 swtch = Inl JsTypeError"
proof -
  define P where "P m \<longleftrightarrow> int m < n \<and> slotAt ports (int m) = None" for m
  have "P (nat i)" using i by (simp add: P_def)
  then have "\<exists>m. P m \<and> (\<forall>k<m. \<not> P k)"
    using exists_least_iff [of P] by blast
  then obtain j where j: "P j" and least: "\<And>k. k < j \<Longrightarrow> \<not> P k" by blast
  let ?I = "\<lambda>t. \<exists>ps. sw_ports t = Some ps \<and> map (\<lambda>x. x = None) ps = map (\<lambda>x. x = None) ports"
  have before: "\<exists>t'. fillPort links pkts k t = Inr t' \<and> ?I t'"
    if "0 \<le> k" "k < int j" "?I t" for k t
  proof -
    have "nat k < j" using that(1,2) by linarith
    then have "\<not> P (nat k)" by (rule least)
    moreover have "int (nat k) < n" using that(1,2) j by (simp add: P_def)
    ultimately have "slotAt ports k \<noteq> None" using that(1) by (simp add: P_def)
    with that(3) show ?thesis by (rule fillPort_step)
  qed
  have hole: "slotAt ports (int j) = None"
    using j by (simp add: P_def)
  have at: "fillPort links pkts (int j) t = Inl JsTypeError" if "?I t" for t
    using that hole by (rule fillPort_stop)
  have start: "?I swtch" using assms(1) by blast
  have jn: "int j < n" using j by (simp add: P_def)
  have j0: "0 \<le> int j" by simp
  show ?thesis
    using before at start j0 jn assms(2) by (rule forLoop_throws [where I = ?I and j = "int j" and body = "fillPort links pkts"
          and i = 0 and n = n and e = JsTypeError and s = swtch])
qed

lemma fill_loop:
  assumes "sw_ports swtch = Some ports" and "n \<le> 2 ^ 53"
  shows "forLoop (Num n) (fillPort links pkts) 0 swtch = Inl JsTypeError
         \<longleftrightarrow> (\<exists>i. 0 \<le> i \<and> i < n \<and> slotAt ports i = None)"
proof (cases "\<exists>i. 0 \<le> i \<and> i < n \<and> slotAt ports i = None")
  case True
  then obtain i where i: "0 \<le> i" "i < n" "slotAt ports i = None" by blast
  have "forLoop (Num n) (fillPort links pkts) 0 swtch = Inl JsTypeError"
    using assms(1) assms(2) i(1) i(2) i(3) by (rule fill_loop_throws)
  then show ?thesis
    using True by (intro iffI)
next
  case False
  have none: "slotAt ports i \<noteq> None" if "0 \<le> i" "i < n" for i
  proof
    assume "slotAt ports i = None"
    with that have "\<exists>i. 0 \<le> i \<and> i < n \<and> slotAt ports i = None" by (intro exI conjI)
    with False show False ..
  qed
  have "\<exists>s'. forLoop (Num n) (fillPort links pkts) 0 swtch = Inr s'"
    using assms(1) assms(2) none by (rule fill_loop_ok)
  then obtain s' where "forLoop (Num n) (fillPort links pkts) 0 swtch = Inr s'" ..
  then have "forLoop (Num n) (fillPort links pkts) 0 swtch \<noteq> Inl JsTypeError"
    by simp
  then show ?thesis
    using False by (intro iffI) (erule notE, assumption)+
qed
































































section \<open>Properties of the session: login and logout\<close>

lemma transportError_simps [simp]:
  "transportError (Inl (Thrown f))" "\<not> transportError (Inl JsTypeError)"
  "\<not> transportError (Inl NeverReturns)" "\<not> transportError (Inr x)"
  by (simp_all add: transportError_def)

lemma orderly_ret: "orderly net final (ret x)"
  by (simp add: orderly_def ret_def)

lemma orderly_attempt: "\<not> transportError r \<Longrightarrow> orderly net final (attempt r)"
  by (simp add: orderly_def attempt_def)

lemma orderly_fetch: "q \<noteq> final \<Longrightarrow> orderly net final (fetch net q)"
  by (auto simp: orderly_def fetch_def completes_def split: sum.splits)

lemma orderly_await:
  assumes "orderly net final m" and "\<And>x. orderly net final (rest x)"
  shows "orderly net final (await m rest)"
proof (cases m)
  case (Pair r sent)
  show ?thesis
  proof (cases r)
    case (Inl e)
    from assms(1) show ?thesis
      unfolding Pair Inl await_Inl orderly_def by (cases e) simp_all
  next
    case (Inr x)
    with Pair assms(1) have m: "final \<notin> set sent" "list_all (completes net) sent"
      by (simp_all add: orderly_def)
    from assms(2) [of x] have r: "final \<notin> set (snd (rest x))"
      "if transportError (fst (rest x)) then list_ex (\<lambda>q. \<not> completes net q) (snd (rest x))
       else list_all (completes net) (snd (rest x))"
      by (simp_all add: orderly_def)
    from m r show ?thesis
      unfolding Pair Inr await_Inr orderly_def
      by (auto simp: list_ex_iff list_all_iff split: if_splits)
  qed
qed

lemma forLoop_no_transportError:
  assumes "\<And>i s. \<not> transportError (body i s)"
  shows "\<not> transportError (forLoop bound body i s)"
  using assms
proof (induction bound body i s rule: forLoop.induct)
  case (1 bound body i s)
  show ?case
  proof (cases "body i s")
    case (Inl e)
    from "1.prems" [of i s] show ?thesis
      by (subst forLoop.simps) (simp add: Inl)
  next
    case (Inr s')
    from "1.IH" [OF _ Inr] "1.prems" show ?thesis
      by (subst forLoop.simps) (simp add: Inr)
  qed
qed


lemma await_assoc: "await (await m f) g = await m (\<lambda>x. await (f x) g)"
proof (cases m)
  case (Pair r sent)
  show ?thesis
  proof (cases r)
    case (Inl e)
    show ?thesis unfolding Pair Inl await_Inl ..
  next
    case (Inr x)
    show ?thesis
    proof (cases "f x")
      case (Pair r' sent')
      note fx = this
      show ?thesis
      proof (cases r')
        case (Inl e)
        from fx show ?thesis unfolding \<open>m = (r, sent)\<close> \<open>r = Inr x\<close> await_Inr
          by (simp add: Inl await_Inl)
      next
        case (Inr y)
        from fx show ?thesis unfolding \<open>m = (r, sent)\<close> \<open>r = Inr x\<close> await_Inr
          by (simp add: Inr await_Inr)
      qed
    qed
  qed
qed

lemma orderly_if:
  assumes "c \<Longrightarrow> orderly net final a" and "\<not> c \<Longrightarrow> orderly net final b"
  shows "orderly net final (if c then a else b)"
  using assms by simp

lemma not_logout:
  "loginRequest server username password limit \<noteq> logoutRequest server"
  "switchInfoRequest server \<noteq> logoutRequest server"
  "portInfo1Request server \<noteq> logoutRequest server"
  "portInfo2Request server \<noteq> logoutRequest server"
  "vlanInfoRequest server \<noteq> logoutRequest server"
  "renameRequest server name \<noteq> logoutRequest server"
  "vlanModeRequest server vlan \<noteq> logoutRequest server"
  "portRequest server portIndex mode speedIndex \<noteq> logoutRequest server"
  "vlanDeleteRequest server vlanIndex \<noteq> logoutRequest server"
  "vlanModifyRequest server vlanIndex name members \<noteq> logoutRequest server"
  by (simp_all add: loginRequest_def logoutRequest_def switchInfoRequest_def
      portInfo1Request_def portInfo2Request_def vlanInfoRequest_def renameRequest_def
      vlanModeRequest_def portRequest_def vlanDeleteRequest_def vlanModifyRequest_def
      LOGOUT_PATH_def SWITCH_INFO_PATH_def PORT_INFO_1_PATH_def PORT_INFO_2_PATH_def
      VLAN_INFO_PATH_def SWITCH_PATH_def VLAN_PATH_def PORT_PATH_def Let_def)

lemma split_no_transportError: "\<not> transportError (split txt)"
  by (simp add: split_def split: option.splits)

lemma stripQuotesOf_no_transportError: "\<not> transportError (stripQuotesOf txt)"
  by (simp add: stripQuotesOf_def split: jsval.splits)

lemma newPort_no_transportError: "\<not> transportError (newPort states speeds i swtch)"
  by (simp add: newPort_def Let_def split: option.splits)

lemma fillPort_no_transportError: "\<not> transportError (fillPort links pkts i swtch)"
  by (simp add: fillPort_def split: option.splits)

lemma newVlan_no_transportError: "\<not> transportError (newVlan vids names tag untag i swtch)"
proof (cases "stripQuotesOf (arrayAt names i)")
  case (Inl e)
  with stripQuotesOf_no_transportError [of "arrayAt names i"]
  have "\<not> transportError (Inl e :: error + switch)"
    by (cases e) simp_all
  with Inl show ?thesis
    by (simp add: newVlan_def split: option.splits)
next
  case (Inr name)
  then show ?thesis
    by (simp add: newVlan_def Let_def split: option.splits)
qed

lemmas orderly_intros =
  orderly_await orderly_fetch orderly_ret orderly_attempt orderly_if
  forLoop_no_transportError split_no_transportError stripQuotesOf_no_transportError
  newPort_no_transportError fillPort_no_transportError newVlan_no_transportError
  not_logout

lemma orderly_login: "orderly net (logoutRequest server) (priv_login net server username password)"
  unfolding priv_login_def by (intro orderly_intros)

lemma orderly_identityFields: "orderly net final (identityFields scrpt swtch)"
  unfolding identityFields_def attributeOf_def by (intro orderly_intros)

lemma orderly_portInfo1: "orderly net (logoutRequest server) (priv_portInfo1 net server swtch)"
  unfolding priv_portInfo1_def Let_def by (intro orderly_intros)

lemma orderly_portInfo2: "orderly net (logoutRequest server) (priv_portInfo2 net server swtch)"
  unfolding priv_portInfo2_def Let_def by (intro orderly_intros)

lemma orderly_vlanInfo: "orderly net (logoutRequest server) (priv_vlanInfo net server swtch)"
  unfolding priv_vlanInfo_def Let_def by (intro orderly_intros)

lemma orderly_switchInfo: "orderly net (logoutRequest server) (priv_switchInfo net server)"
  unfolding priv_switchInfo_def Let_def
  by (intro orderly_intros orderly_identityFields orderly_portInfo1 orderly_portInfo2
      orderly_vlanInfo)


lemma logout_run:
  "snd (priv_logout net server) = [logoutRequest server]"
  "fst (priv_logout net server) \<noteq> Inl JsTypeError"
  "fst (priv_logout net server) \<noteq> Inl NeverReturns"
  by (simp_all add: priv_logout_def fetch_def ret_def await_def split: sum.splits)

lemma logout_then_run:
  "snd (await (priv_logout net server) (\<lambda>_. ret x)) = [logoutRequest server]"
  "fst (await (priv_logout net server) (\<lambda>_. ret x)) \<noteq> Inl JsTypeError"
  "fst (await (priv_logout net server) (\<lambda>_. ret x)) \<noteq> Inl NeverReturns"
  by (simp_all add: priv_logout_def fetch_def ret_def await_def split: sum.splits)

lemma session_frame:
  assumes m: "orderly net (logoutRequest server) m"
    and sent: "\<And>x. snd (k x) = [logoutRequest server]"
    and res: "\<And>x. fst (k x) \<noteq> Inl JsTypeError" "\<And>x. fst (k x) \<noteq> Inl NeverReturns"
  shows "(logoutRequest server \<in> set (snd (await m k))) = undisturbed net server (await m k)
         \<and> (logoutRequest server \<in> set (snd (await m k)) \<or> throws (await m k))"
proof (cases m)
  case (Pair r sent0)
  show ?thesis
  proof (cases r)
    case (Inl e)
    from m have fresh: "logoutRequest server \<notin> set sent0"
      by (simp add: orderly_def Pair)
    have "\<not> undisturbed net server (Inl e :: error + 'b, sent0)"
    proof (cases e)
      case (Thrown f)
      with m obtain q where q: "q \<in> set sent0" "\<not> completes net q"
        by (auto simp: orderly_def Pair Inl list_ex_iff)
      with fresh have "q \<noteq> logoutRequest server"
        by auto
      with q show ?thesis
        by (auto simp: undisturbed_def list_all_iff)
    next
      case JsTypeError
      then show ?thesis by (simp add: undisturbed_def)
    next
      case NeverReturns
      then show ?thesis by (simp add: undisturbed_def)
    qed
    with fresh show ?thesis
      unfolding Pair Inl await_Inl by (simp add: throws_def)
  next
    case (Inr x)
    from m have "list_all (completes net) sent0"
      by (simp add: orderly_def Pair Inr)
    then have "list_all (\<lambda>q. q = logoutRequest server \<or> completes net q) sent0"
      by (simp add: list_all_iff)
    with sent [of x] res [of x] show ?thesis
      unfolding Pair Inr await_Inr by (simp add: undisturbed_def)
  qed
qed

lemma Info_frame:
  "Info net server username password =
     await (await (priv_login net server username password) (\<lambda>_. priv_switchInfo net server))
       (\<lambda>result. await (priv_logout net server) (\<lambda>_. ret result))"
  by (simp add: Info_def await_assoc)

lemma SetSwitch_frame:
  "SetSwitch net server username password name vlan =
     await (await (priv_login net server username password) (\<lambda>_.
            await (if (truthy name \<and> name \<noteq> JString [] \<and> lengthBelow name 32) \<or> regexTest name
                   then await (fetch net (renameRequest server name)) (\<lambda>_. ret ())
                   else ret ()) (\<lambda>_.
            if truthy vlan \<and> (vlan = JNumber 0 \<or> vlan = JNumber 1)
            then await (fetch net (vlanModeRequest server vlan)) (\<lambda>_. ret ())
            else ret ())))
       (\<lambda>_. priv_logout net server)"
  unfolding SetSwitch_def await_assoc ..

lemma SetPort_frame:
  "SetPort net server username password port state speed =
     await (await (priv_login net server username password) (\<lambda>_.
            if between 1 (parseInt (toString port) None) 8
               \<and> (parseInt (toString state) None = Num 0 \<or> parseInt (toString state) None = Num 1)
               \<and> truthySlot (SPEED2VALUE (toString speed))
            then await (fetch net (portRequest server (parseInt (toString port) None)
                         (parseInt (toString state) None) (SPEED2VALUE (toString speed))))
                   (\<lambda>_. ret ())
            else ret ()))
       (\<lambda>_. priv_logout net server)"
  unfolding SetPort_def Let_def await_assoc ..

lemma SetVLAN_frame:
  "SetVLAN net server username password vlan name members =
     await (await (priv_login net server username password) (\<lambda>_.
            if between 2 (parseInt (toString vlan) None) 32 \<and> truthy name \<and> looseNotEmpty name
               \<and> regexTest name \<and> isArray members
            then if length (elements members) = 0
                 then await (fetch net (vlanDeleteRequest server (parseInt (toString vlan) None)))
                        (\<lambda>_. ret ())
                 else await (fetch net (vlanModifyRequest server (parseInt (toString vlan) None)
                               name members)) (\<lambda>_. ret ())
            else ret ()))
       (\<lambda>_. priv_logout net server)"
  unfolding SetVLAN_def Let_def await_assoc ..

lemma Info_session:
  "(logoutRequest server \<in> set (snd (Info net server username password)))
      = undisturbed net server (Info net server username password)
    \<and> (logoutRequest server \<in> set (snd (Info net server username password))
       \<or> throws (Info net server username password))"
proof -
  have "orderly net (logoutRequest server)
          (await (priv_login net server username password) (\<lambda>_. priv_switchInfo net server))"
    by (intro orderly_await orderly_login orderly_switchInfo)
  from session_frame [where k = "\<lambda>result. await (priv_logout net server) (\<lambda>_. ret result)",
      OF this logout_then_run]
  show ?thesis
    unfolding Info_frame .
qed

lemma SetSwitch_session:
  "(logoutRequest server \<in> set (snd (SetSwitch net server username password name vlan)))
      = undisturbed net server (SetSwitch net server username password name vlan)
    \<and> (logoutRequest server \<in> set (snd (SetSwitch net server username password name vlan))
       \<or> throws (SetSwitch net server username password name vlan))"
proof -
  have "orderly net (logoutRequest server)
     (await (priv_login net server username password) (\<lambda>_.
            await (if (truthy name \<and> name \<noteq> JString [] \<and> lengthBelow name 32) \<or> regexTest name
                   then await (fetch net (renameRequest server name)) (\<lambda>_. ret ())
                   else ret ()) (\<lambda>_.
            if truthy vlan \<and> (vlan = JNumber 0 \<or> vlan = JNumber 1)
            then await (fetch net (vlanModeRequest server vlan)) (\<lambda>_. ret ())
            else ret ())))"
    by (intro orderly_intros orderly_login)
  from session_frame [where k = "\<lambda>_. priv_logout net server", OF this logout_run]
  show ?thesis
    unfolding SetSwitch_frame .
qed

lemma SetPort_session:
  "(logoutRequest server \<in> set (snd (SetPort net server username password port state speed)))
      = undisturbed net server (SetPort net server username password port state speed)
    \<and> (logoutRequest server \<in> set (snd (SetPort net server username password port state speed))
       \<or> throws (SetPort net server username password port state speed))"
proof -
  have "orderly net (logoutRequest server)
     (await (priv_login net server username password) (\<lambda>_.
            if between 1 (parseInt (toString port) None) 8
               \<and> (parseInt (toString state) None = Num 0 \<or> parseInt (toString state) None = Num 1)
               \<and> truthySlot (SPEED2VALUE (toString speed))
            then await (fetch net (portRequest server (parseInt (toString port) None)
                         (parseInt (toString state) None) (SPEED2VALUE (toString speed))))
                   (\<lambda>_. ret ())
            else ret ()))"
    by (intro orderly_intros orderly_login)
  from session_frame [where k = "\<lambda>_. priv_logout net server", OF this logout_run]
  show ?thesis
    unfolding SetPort_frame .
qed

lemma SetVLAN_session:
  "(logoutRequest server \<in> set (snd (SetVLAN net server username password vlan name members)))
      = undisturbed net server (SetVLAN net server username password vlan name members)
    \<and> (logoutRequest server \<in> set (snd (SetVLAN net server username password vlan name members))
       \<or> throws (SetVLAN net server username password vlan name members))"
proof -
  have "orderly net (logoutRequest server)
     (await (priv_login net server username password) (\<lambda>_.
            if between 2 (parseInt (toString vlan) None) 32 \<and> truthy name \<and> looseNotEmpty name
               \<and> regexTest name \<and> isArray members
            then if length (elements members) = 0
                 then await (fetch net (vlanDeleteRequest server (parseInt (toString vlan) None)))
                        (\<lambda>_. ret ())
                 else await (fetch net (vlanModifyRequest server (parseInt (toString vlan) None)
                               name members)) (\<lambda>_. ret ())
            else ret ()))"
    by (intro orderly_intros orderly_login)
  from session_frame [where k = "\<lambda>_. priv_logout net server", OF this logout_run]
  show ?thesis
    unfolding SetVLAN_frame .
qed

text \<open>
  C1, as the claim states it, fails: no routine has a \<open>try\<close> or \<open>finally\<close> around the
  steps between the login and the logout, so an error of such a step leaves the
  routine before the logout. Here the login completes and the request that
  configures the port is refused: SetPort throws the error and no logout has been
  sent.
\<close>

theorem SetPort_no_logout_counterexample:
  "completes (failingAt (portRequest ''sw'' (Num 4) (Num 0) (Index 4)) ''FetchError'')
     (loginRequest ''sw'' ''admin'' ''admin'' None)
   \<and> SetPort (failingAt (portRequest ''sw'' (Num 4) (Num 0) (Index 4)) ''FetchError'')
       ''sw'' ''admin'' ''admin'' (JNumber 4) (JNumber 0) (JString ''100MH'')
     = (Inl (Thrown (FetchError ''FetchError'')),
        [loginRequest ''sw'' ''admin'' ''admin'' None,
         GET ''http://sw:80/port_setting.cgi?portid=4&state=0&speed=4&flowcontrol=0&apply=Apply''])
   \<and> logoutRequest ''sw'' \<notin> set (snd
        (SetPort (failingAt (portRequest ''sw'' (Num 4) (Num 0) (Index 4)) ''FetchError'')
           ''sw'' ''admin'' ''admin'' (JNumber 4) (JNumber 0) (JString ''100MH'')))"
  by code_simp

text \<open>
  C1, amended. For each of Info, SetSwitch, SetPort and SetVLAN the logout is
  attempted exactly when the run is undisturbed up to it: the login and every
  request sent between the login and the logout complete, and no step in between
  throws a TypeError or fails to end. In every other run, so whenever the login or
  a step between the login and the logout throws, the routine throws and no logout
  is attempted.
\<close>

theorem logout_iff_undisturbed:
  "((logoutRequest server \<in> set (snd (Info net server username password)))
      = undisturbed net server (Info net server username password)
    \<and> (logoutRequest server \<in> set (snd (Info net server username password))
       \<or> throws (Info net server username password)))
   \<and> ((logoutRequest server \<in> set (snd (SetSwitch net server username password name vlan)))
      = undisturbed net server (SetSwitch net server username password name vlan)
    \<and> (logoutRequest server \<in> set (snd (SetSwitch net server username password name vlan))
       \<or> throws (SetSwitch net server username password name vlan)))
   \<and> ((logoutRequest server \<in> set (snd (SetPort net server username password port state speed)))
      = undisturbed net server (SetPort net server username password port state speed)
    \<and> (logoutRequest server \<in> set (snd (SetPort net server username password port state speed))
       \<or> throws (SetPort net server username password port state speed)))
   \<and> ((logoutRequest server \<in> set (snd (SetVLAN net server username password vlanIndex vlanName members)))
      = undisturbed net server (SetVLAN net server username password vlanIndex vlanName members)
    \<and> (logoutRequest server \<in> set (snd (SetVLAN net server username password vlanIndex vlanName members))
       \<or> throws (SetVLAN net server username password vlanIndex vlanName members)))"
  by (rule conjI [OF Info_session conjI [OF SetSwitch_session
        conjI [OF SetPort_session SetVLAN_session]]])

lemma SetPort_returns:
  "\<not> throws (SetPort (answering []) ''sw'' ''admin'' ''admin'' (JNumber 4) (JNumber 0)
               (JString ''100MH''))"
  by code_simp

theorem logout_iff_undisturbed_witness:
  "logoutRequest ''sw''
     \<in> set (snd (SetPort (answering []) ''sw'' ''admin'' ''admin'' (JNumber 4) (JNumber 0)
                   (JString ''100MH'')))
   \<and> undisturbed (answering []) ''sw''
       (SetPort (answering []) ''sw'' ''admin'' ''admin'' (JNumber 4) (JNumber 0)
          (JString ''100MH''))"
proof -
  note t = logout_iff_undisturbed [where net = "answering []" and server = "''sw''"
      and username = "''admin''" and password = "''admin''" and port = "JNumber 4"
      and state = "JNumber 0" and speed = "JString ''100MH''",
      THEN conjunct2, THEN conjunct2, THEN conjunct1]
  from t [THEN conjunct2] SetPort_returns
  have sent: "logoutRequest ''sw''
     \<in> set (snd (SetPort (answering []) ''sw'' ''admin'' ''admin'' (JNumber 4) (JNumber 0)
                   (JString ''100MH'')))"
    by blast
  with t [THEN conjunct1] have "undisturbed (answering []) ''sw''
       (SetPort (answering []) ''sw'' ''admin'' ''admin'' (JNumber 4) (JNumber 0)
          (JString ''100MH''))"
    by (rule iffD1)
  with sent show ?thesis
    by (rule conjI)
qed

end
